theory Spec2Isabelle
  imports Main "HOL-Library.Char_ord" "HOL-Library.List_Lexorder" "HOL-Library.AList"
begin

section \<open>Values, exceptions and the Python primitives of generate2.py\<close>

text \<open>
  The script is a flat Python program that walks \<open>apps/packages\<close>, validates every
  version directory and writes a signed manifest. Python \<open>str\<close> values are represented
  by their UTF-8 bytes (a \<open>string\<close>), so \<open>bytes.decode()\<close> is the identity on
  well-formed UTF-8 and raises otherwise; every delimiter the script looks for is ASCII, so
  splitting, prefix tests and sorting agree with Python's on code points.
\<close>

datatype error =
    AssertionError
  | KeyError string
  | IndexError
  | ValueError
  | TypeError
  | AttributeError
  | UnicodeDecodeError
  | OSError
  | CalledProcessError
  | TOMLDecodeError
  | Exception string

text \<open>The values a TOML document holds and \<open>json.dump\<close> writes. TOML floats and
  date-times are not represented.\<close>

datatype pyval =
    PStr string
  | PInt int
  | PBool bool
  | PList "pyval list"
  | PDict "(string \<times> pyval) list"

type_synonym dict = "(string \<times> pyval) list"

text \<open>A raised exception is \<open>Inl\<close>; \<open>res_bind\<close> sequences two steps that may raise.\<close>

definition res_bind :: "error + 'a \<Rightarrow> ('a \<Rightarrow> error + 'b) \<Rightarrow> error + 'b" where
  "res_bind r f = (case r of Inl e \<Rightarrow> Inl e | Inr x \<Rightarrow> f x)"

definition py_assert :: "bool \<Rightarrow> error + unit" where
  "py_assert b = (if b then Inr () else Inl AssertionError)"

subsection \<open>Dictionaries\<close>

text \<open>A Python dict keeps insertion order: assigning to a present key replaces the value
  in place, assigning to a new key appends it. That is \<open>AList.update\<close>.\<close>

definition dict_get :: "dict \<Rightarrow> string \<Rightarrow> pyval option" where
  "dict_get d k = map_of d k"

definition dict_item :: "dict \<Rightarrow> string \<Rightarrow> error + pyval" where
  "dict_item d k = (case map_of d k of None \<Rightarrow> Inl (KeyError k) | Some v \<Rightarrow> Inr v)"

definition dict_set :: "dict \<Rightarrow> string \<Rightarrow> pyval \<Rightarrow> dict" where
  "dict_set d k v = AList.update k v d"

text \<open>\<open>d[k].append(x)\<close> where evaluating the argument may itself raise: the list and its
  \<open>append\<close> are looked up before the argument is evaluated.\<close>

definition dict_append :: "dict \<Rightarrow> string \<Rightarrow> error + pyval \<Rightarrow> error + dict" where
  "dict_append d k arg =
     res_bind (dict_item d k) (\<lambda>v.
       case v of PList xs \<Rightarrow> res_bind arg (\<lambda>x. Inr (dict_set d k (PList (xs @ [x]))))
               | _ \<Rightarrow> Inl AttributeError)"

subsection \<open>Comparison and membership\<close>

text \<open>\<open>v == n\<close> for an integer \<open>n\<close> (a Python bool is the integer 0 or 1) and
  \<open>v == s\<close> for a string \<open>s\<close>.\<close>

fun py_eq_int :: "pyval \<Rightarrow> int \<Rightarrow> bool" where
  "py_eq_int (PInt a) n = (a = n)"
| "py_eq_int (PBool b) n = ((if b then 1 else 0) = n)"
| "py_eq_int _ n = False"

fun py_eq_str :: "pyval \<Rightarrow> string \<Rightarrow> bool" where
  "py_eq_str (PStr a) s = (a = s)"
| "py_eq_str _ s = False"

fun is_substr :: "string \<Rightarrow> string \<Rightarrow> bool" where
  "is_substr s [] = (s = [])"
| "is_substr s (c # cs) = (take (length s) (c # cs) = s \<or> is_substr s cs)"

text \<open>\<open>s in v\<close> for a string \<open>s\<close>: element of a list, substring of a string, key of a
  dict; an integer or a bool is not iterable.\<close>

fun py_in :: "string \<Rightarrow> pyval \<Rightarrow> error + bool" where
  "py_in s (PList xs) = Inr (\<exists>x \<in> set xs. py_eq_str x s)"
| "py_in s (PStr t) = Inr (is_substr s t)"
| "py_in s (PDict d) = Inr (s \<in> fst ` set d)"
| "py_in s (PInt _) = Inl TypeError"
| "py_in s (PBool _) = Inl TypeError"

subsection \<open>Strings and bytes\<close>

definition startswith :: "string \<Rightarrow> string \<Rightarrow> bool" where
  "startswith s p = (take (length p) s = p)"

definition endswith :: "string \<Rightarrow> string \<Rightarrow> bool" where
  "endswith s p = (length p \<le> length s \<and> drop (length s - length p) s = p)"

text \<open>\<open>s.split(c)\<close> for a one-character separator: always at least one part.\<close>

fun split_on :: "char \<Rightarrow> string \<Rightarrow> string list" where
  "split_on c [] = [[]]"
| "split_on c (x # xs) =
     (if x = c then [] # split_on c xs
      else (case split_on c xs of [] \<Rightarrow> [[x]] | y # ys \<Rightarrow> (x # y) # ys))"

text \<open>\<open>xs[i]\<close> for a non-negative index.\<close>

fun py_index :: "'a list \<Rightarrow> nat \<Rightarrow> error + 'a" where
  "py_index [] i = Inl IndexError"
| "py_index (x # xs) 0 = Inr x"
| "py_index (x # xs) (Suc i) = py_index xs i"

text \<open>\<open>os.path.join(a, b)\<close> of posixpath.\<close>

definition os_path_join :: "string \<Rightarrow> string \<Rightarrow> string" where
  "os_path_join a b =
     (if startswith b ''/'' then b
      else if a = [] \<or> endswith a ''/'' then a @ b
      else a @ ''/'' @ b)"

text \<open>Well-formed UTF-8 (the byte sequences Python's strict decoder accepts): no overlong
  forms, no surrogates, nothing above U+10FFFF.\<close>

definition byte_in :: "char \<Rightarrow> nat \<Rightarrow> nat \<Rightarrow> bool" where
  "byte_in c lo hi = (lo \<le> of_char c \<and> of_char c \<le> hi)"

fun valid_utf8 :: "string \<Rightarrow> bool" where
  "valid_utf8 [] = True"
| "valid_utf8 (c # cs) =
     (if byte_in c 0 127 then valid_utf8 cs
      else if byte_in c 194 223 then
        (case cs of c1 # r \<Rightarrow> byte_in c1 128 191 \<and> valid_utf8 r | _ \<Rightarrow> False)
      else if byte_in c 224 239 then
        (case cs of c1 # c2 # r \<Rightarrow>
           (if byte_in c 224 224 then byte_in c1 160 191
            else if byte_in c 237 237 then byte_in c1 128 159
            else byte_in c1 128 191) \<and> byte_in c2 128 191 \<and> valid_utf8 r
         | _ \<Rightarrow> False)
      else if byte_in c 240 244 then
        (case cs of c1 # c2 # c3 # r \<Rightarrow>
           (if byte_in c 240 240 then byte_in c1 144 191
            else if byte_in c 244 244 then byte_in c1 128 143
            else byte_in c1 128 191) \<and> byte_in c2 128 191 \<and> byte_in c3 128 191 \<and> valid_utf8 r
         | _ \<Rightarrow> False)
      else False)"

definition decode :: "string \<Rightarrow> error + string" where
  "decode bs = (if valid_utf8 bs then Inr bs else Inl UnicodeDecodeError)"

text \<open>Reading a file opened in text mode: decoding (the locale's encoding, taken to be
  UTF-8) and universal newlines, which turn \<open>\r\n\<close> and a lone \<open>\r\<close> into \<open>\n\<close>.\<close>

fun universal_newlines :: "string \<Rightarrow> string" where
  "universal_newlines [] = []"
| "universal_newlines (c # cs) =
     (if c = CHR 0x0D then
        (case cs of [] \<Rightarrow> [CHR 0x0A]
         | d # r \<Rightarrow> if d = CHR 0x0A then CHR 0x0A # universal_newlines r
                    else CHR 0x0A # universal_newlines (d # r))
      else c # universal_newlines cs)"

definition text_read :: "string \<Rightarrow> error + string" where
  "text_read bs = res_bind (decode bs) (\<lambda>t. Inr (universal_newlines t))"

text \<open>\<open>str.splitlines()\<close>: a line ends at \<open>\n\<close>, \<open>\r\<close>, \<open>\r\n\<close>, \<open>\v\<close>, \<open>\f\<close>,
  \<open>\x1c\<close>, \<open>\x1d\<close>, \<open>\x1e\<close>, U+0085 (bytes C2 85), U+2028 and U+2029 (bytes E2 80 A8/A9);
  text after the last line end is a line of its own unless it is empty.\<close>

fun splitlines_from :: "string \<Rightarrow> string \<Rightarrow> string list" where
  "splitlines_from cur [] = (if cur = [] then [] else [cur])"
| "splitlines_from cur (c # cs) =
     (if c = CHR 0x0D then
        (case cs of [] \<Rightarrow> [cur]
         | d # r \<Rightarrow> if d = CHR 0x0A then cur # splitlines_from [] r
                    else cur # splitlines_from [] (d # r))
      else if c \<in> set [CHR 0x0A, CHR 0x0B, CHR 0x0C, CHR 0x1C, CHR 0x1D, CHR 0x1E] then
        cur # splitlines_from [] cs
      else if c = CHR 0xC2 then
        (case cs of [] \<Rightarrow> [cur @ [c]]
         | d # r \<Rightarrow> if d = CHR 0x85 then cur # splitlines_from [] r
                    else splitlines_from (cur @ [c]) (d # r))
      else if c = CHR 0xE2 then
        (case cs of d # e # r \<Rightarrow>
           if d = CHR 0x80 \<and> (e = CHR 0xA8 \<or> e = CHR 0xA9) then cur # splitlines_from [] r
           else splitlines_from (cur @ [c]) (d # e # r)
         | _ \<Rightarrow> splitlines_from (cur @ [c]) cs)
      else splitlines_from (cur @ [c]) cs)"

definition splitlines :: "string \<Rightarrow> string list" where
  "splitlines t = splitlines_from [] t"

text \<open>\<open>", ".join(v)\<close> raises unless \<open>v\<close> is iterable and yields strings only: a list of
  strings, a string (its characters) or a dict (its keys).\<close>

fun joinable :: "pyval \<Rightarrow> bool" where
  "joinable (PList xs) = (\<forall>x \<in> set xs. case x of PStr _ \<Rightarrow> True | _ \<Rightarrow> False)"
| "joinable (PStr _) = True"
| "joinable (PDict _) = True"
| "joinable _ = False"

subsection \<open>int() on a string\<close>

text \<open>\<open>int(s)\<close> in base 10: optional white space around, an optional sign, then digits
  with single underscores allowed between them. Only ASCII is recognised here (Python
  also accepts the decimal digits and spaces of other scripts).\<close>

definition is_digit :: "char \<Rightarrow> bool" where
  "is_digit c = (c \<in> set ''0123456789'')"

definition is_space :: "char \<Rightarrow> bool" where
  "is_space c = (c \<in> set [CHR '' '', CHR 0x09, CHR 0x0A, CHR 0x0B, CHR 0x0C, CHR 0x0D])"

definition digit_val :: "char \<Rightarrow> int" where
  "digit_val c = int (of_char c) - 48"

fun digits_val :: "int \<Rightarrow> char \<Rightarrow> string \<Rightarrow> int option" where
  "digits_val acc prev [] = (if prev = CHR ''_'' then None else Some acc)"
| "digits_val acc prev (c # cs) =
     (if c = CHR ''_'' then (if prev = CHR ''_'' then None else digits_val acc c cs)
      else if is_digit c then digits_val (10 * acc + digit_val c) c cs
      else None)"

definition py_int :: "string \<Rightarrow> error + int" where
  "py_int s =
     (let t = rev (dropWhile is_space (rev (dropWhile is_space s)));
          neg = (t \<noteq> [] \<and> hd t = CHR ''-'');
          u = (if t \<noteq> [] \<and> (hd t = CHR ''+'' \<or> hd t = CHR ''-'') then tl t else t)
      in if u = [] \<or> \<not> is_digit (hd u) then Inl ValueError
         else (case digits_val 0 (hd u) u of
                 None \<Rightarrow> Inl ValueError
               | Some n \<Rightarrow> Inr (if neg then - n else n)))"

subsection \<open>shlex.split\<close>

text \<open>The POSIX-mode tokenizer of \<open>shlex\<close> with \<open>whitespace_split\<close> and no comment
  characters: white space separates tokens, a backslash escapes the next character, single
  quotes quote literally, and inside double quotes a backslash escapes only a backslash
  or a double quote. An unclosed quote or a trailing backslash raises \<open>ValueError\<close>.\<close>

datatype shlex_state =
    InSpace
  | InWord
  | InQuote char
  | InEscape "char option"

definition shlex_space :: "char \<Rightarrow> bool" where
  "shlex_space c = (c \<in> set [CHR '' '', CHR 0x09, CHR 0x0D, CHR 0x0A])"

definition shlex_quote :: "char \<Rightarrow> bool" where
  "shlex_quote c = (c = CHR 0x27 \<or> c = CHR 0x22)"

definition emit :: "string \<Rightarrow> error + string list \<Rightarrow> error + string list" where
  "emit tok r = res_bind r (\<lambda>ts. Inr (tok # ts))"

fun read_token :: "shlex_state \<Rightarrow> string \<Rightarrow> bool \<Rightarrow> string \<Rightarrow> error + string list" where
  "read_token InSpace tok quoted [] = Inr []"
| "read_token InWord tok quoted [] = Inr (if tok \<noteq> [] \<or> quoted then [tok] else [])"
| "read_token (InQuote q) tok quoted [] = Inl ValueError"
| "read_token (InEscape e) tok quoted [] = Inl ValueError"
| "read_token InSpace tok quoted (c # cs) =
     (if shlex_space c then
        (if tok \<noteq> [] \<or> quoted then emit tok (read_token InSpace [] False cs)
         else read_token InSpace tok quoted cs)
      else if c = CHR 0x5C then read_token (InEscape None) tok quoted cs
      else if shlex_quote c then read_token (InQuote c) tok quoted cs
      else read_token InWord [c] quoted cs)"
| "read_token (InQuote q) tok quoted (c # cs) =
     (if c = q then read_token InWord tok True cs
      else if c = CHR 0x5C \<and> q = CHR 0x22 then read_token (InEscape (Some q)) tok True cs
      else read_token (InQuote q) (tok @ [c]) True cs)"
| "read_token (InEscape e) tok quoted (c # cs) =
     (case e of
        None \<Rightarrow> read_token InWord (tok @ [c]) quoted cs
      | Some q \<Rightarrow>
          read_token (InQuote q)
            (if c \<noteq> CHR 0x5C \<and> c \<noteq> q then tok @ [CHR 0x5C, c] else tok @ [c]) quoted cs)"
| "read_token InWord tok quoted (c # cs) =
     (if shlex_space c then
        (if tok \<noteq> [] \<or> quoted then emit tok (read_token InSpace [] False cs)
         else read_token InSpace tok quoted cs)
      else if shlex_quote c then read_token (InQuote c) tok quoted cs
      else if c = CHR 0x5C then read_token (InEscape None) tok quoted cs
      else read_token InWord (tok @ [c]) quoted cs)"

definition shlex_split :: "string \<Rightarrow> error + string list" where
  "shlex_split s = read_token InSpace [] False s"

section \<open>The world the script runs in\<close>

text \<open>
  Everything outside the script is a parameter: the directory tree, the four external
  tools, the TOML parser, the JSON serializer, the digest function and the clock. The
  script never writes a path it lists, stats or hands to a tool (it writes only
  \<open>*.sha256\<close> sidecars and the three manifest files), so listings, modification times,
  sizes and tool outputs are functions of the path alone; the contents of regular files
  are state, since the script writes and later reads them.

  \<open>getmtime\<close> is Python's float time stamp, of which the script only uses equality; it is
  an integer here. A tool that exits non-zero or cannot be started is \<open>None\<close>.
\<close>

record world =
  compress_apks :: "int option"
  listdir :: "string \<Rightarrow> string list option"
  isdir :: "string \<Rightarrow> bool"
  getmtime :: "string \<Rightarrow> int option"
  getsize :: "string \<Rightarrow> int option"
  apksigner :: "string \<Rightarrow> string option"
  aapt2 :: "string \<Rightarrow> string option"
  signify :: "string \<Rightarrow> string option"
  tomli_load :: "string \<Rightarrow> dict option"
  sha256_hexdigest :: "string \<Rightarrow> string"
  json_dump :: "pyval \<Rightarrow> string"
  utcnow_timestamp :: int

text \<open>The state: the contents of the regular files, and the subprocesses started so far
  (each by its argument vector), oldest first.\<close>

record state =
  files :: "string \<Rightarrow> string option"
  calls :: "string list list"

type_synonym 'a prog = "state \<Rightarrow> (error + 'a) \<times> state"

definition io_return :: "'a \<Rightarrow> 'a prog" where
  "io_return x s = (Inr x, s)"

definition io_raise :: "error \<Rightarrow> 'a prog" where
  "io_raise e s = (Inl e, s)"

definition io_lift :: "error + 'a \<Rightarrow> 'a prog" where
  "io_lift r s = (r, s)"

definition io_bind :: "'a prog \<Rightarrow> ('a \<Rightarrow> 'b prog) \<Rightarrow> 'b prog" where
  "io_bind m f s = (case m s of (Inl e, s') \<Rightarrow> (Inl e, s') | (Inr x, s') \<Rightarrow> f x s')"

definition isfile :: "string \<Rightarrow> bool prog" where
  "isfile path s = (Inr (files s path \<noteq> None), s)"

definition read_file :: "string \<Rightarrow> string prog" where
  "read_file path s = (case files s path of None \<Rightarrow> (Inl OSError, s) | Some bs \<Rightarrow> (Inr bs, s))"

definition write_file :: "string \<Rightarrow> string \<Rightarrow> unit prog" where
  "write_file path bs s = (Inr (), s\<lparr>files := (files s)(path \<mapsto> bs)\<rparr>)"

definition os_listdir :: "world \<Rightarrow> string \<Rightarrow> error + string list" where
  "os_listdir w path = (case listdir w path of None \<Rightarrow> Inl OSError | Some ns \<Rightarrow> Inr ns)"

definition os_getmtime :: "world \<Rightarrow> string \<Rightarrow> error + int" where
  "os_getmtime w path = (case getmtime w path of None \<Rightarrow> Inl OSError | Some t \<Rightarrow> Inr t)"

definition os_getsize :: "world \<Rightarrow> string \<Rightarrow> error + pyval" where
  "os_getsize w path = (case getsize w path of None \<Rightarrow> Inl OSError | Some n \<Rightarrow> Inr (PInt n))"

text \<open>\<open>subprocess.check_output(argv)\<close>: the call is recorded, and a failing tool
  raises.\<close>

definition log_call :: "string list \<Rightarrow> unit prog" where
  "log_call argv s = (Inr (), s\<lparr>calls := calls s @ [argv]\<rparr>)"

definition check_output :: "string list \<Rightarrow> string option \<Rightarrow> string prog" where
  "check_output argv out =
     io_bind (log_call argv) (\<lambda>_.
       case out of None \<Rightarrow> io_raise CalledProcessError | Some bs \<Rightarrow> io_return bs)"

section \<open>load_props and load_signature\<close>

definition load_props :: "world \<Rightarrow> string \<Rightarrow> string \<Rightarrow> dict prog" where
  "load_props w dir name =
     (let path = os_path_join dir (name @ ''.toml'') in
      io_bind (isfile path) (\<lambda>present.
        if present then
          io_bind (read_file path) (\<lambda>bs.
            case tomli_load w bs of None \<Rightarrow> io_raise TOMLDecodeError | Some d \<Rightarrow> io_return d)
        else io_return []))"

text \<open>\<open>re.split("^Signer #[0-9]+ certificate SHA-256 digest: ", line)\<close> has two parts
  exactly when the line starts with the pattern, and then the second part is the rest of
  the line.\<close>

definition signer_digest :: "string \<Rightarrow> string option" where
  "signer_digest line =
     (let head = ''Signer #''; mid = '' certificate SHA-256 digest: '' in
      if startswith line head then
        (let r = drop (length head) line; r' = dropWhile is_digit r in
         if takeWhile is_digit r \<noteq> [] \<and> startswith r' mid
         then Some (drop (length mid) r') else None)
      else None)"

text \<open>The loop of \<open>load_signature\<close> over the lines of the tool's output.\<close>

fun scan_signers :: "string \<Rightarrow> string list \<Rightarrow> string option \<Rightarrow> error + string option" where
  "scan_signers apk_path [] sig_hash = Inr sig_hash"
| "scan_signers apk_path (line # rest) sig_hash =
     res_bind (decode line) (\<lambda>text.
       case signer_digest text of
         None \<Rightarrow> scan_signers apk_path rest sig_hash
       | Some d \<Rightarrow>
           if sig_hash \<noteq> None then Inl (Exception (apk_path @ '' has more than one signer''))
           else scan_signers apk_path rest (Some d))"

definition parse_signature :: "string \<Rightarrow> string \<Rightarrow> error + string" where
  "parse_signature apk_path apksigner_output =
     res_bind (scan_signers apk_path (split_on CHR 0x0A apksigner_output) None) (\<lambda>sig_hash.
       case sig_hash of
         None \<Rightarrow> Inl (Exception (''didn't find signature of '' @ apk_path))
       | Some d \<Rightarrow> Inr d)"

definition load_signature :: "world \<Rightarrow> string \<Rightarrow> string prog" where
  "load_signature w apk_path =
     io_bind (check_output [''apksigner'', ''verify'', ''--print-certs'', ''--verbose'', apk_path]
                (apksigner w apk_path))
       (\<lambda>apksigner_output. io_lift (parse_signature apk_path apksigner_output))"

text \<open>What \<open>load_signature\<close> yields for a path, whatever the state: the artifact's
  signature digest.\<close>

definition signature_of :: "world \<Rightarrow> string \<Rightarrow> error + string" where
  "signature_of w apk_path =
     (case apksigner w apk_path of
        None \<Rightarrow> Inl CalledProcessError
      | Some out \<Rightarrow> parse_signature apk_path out)"

section \<open>Badging\<close>

text \<open>\<open>kv.split(sep)[1]\<close>.\<close>

definition second_part :: "char \<Rightarrow> string \<Rightarrow> error + string" where
  "second_part sep kv = py_index (split_on sep kv) 1"

text \<open>Lines 72 to 78: the tokens of the first badging line of the primary artifact.\<close>

fun base_first_line :: "string \<Rightarrow> string list \<Rightarrow> dict \<Rightarrow> error + dict" where
  "base_first_line pkg_name [] pkg_props = Inr pkg_props"
| "base_first_line pkg_name (kv # kvs) pkg_props =
     (if startswith kv ''versionName'' then
        res_bind (second_part CHR ''='' kv) (\<lambda>v.
          base_first_line pkg_name kvs (dict_set pkg_props ''versionName'' (PStr v)))
      else if startswith kv ''versionCode'' then
        res_bind (dict_item pkg_props ''versionCode'') (\<lambda>vc.
        res_bind (second_part CHR ''='' kv) (\<lambda>v.
        res_bind (py_int v) (\<lambda>n.
        res_bind (py_assert (py_eq_int vc n)) (\<lambda>_.
          base_first_line pkg_name kvs pkg_props))))
      else if startswith kv ''name'' then
        res_bind (second_part CHR ''='' kv) (\<lambda>v.
        res_bind (py_assert (pkg_name = v)) (\<lambda>_.
          base_first_line pkg_name kvs pkg_props))
      else base_first_line pkg_name kvs pkg_props)"

text \<open>Lines 80 to 90: the other badging lines of the primary artifact.\<close>

definition known_abis :: "string list" where
  "known_abis = [''arm64-v8a'', ''x86_64'', ''armeabi-v7a'', ''x86'']"

fun base_other_lines :: "string list \<Rightarrow> dict \<Rightarrow> error + dict" where
  "base_other_lines [] pkg_props = Inr pkg_props"
| "base_other_lines (line # rest) pkg_props =
     res_bind (decode line) (\<lambda>text.
     res_bind (shlex_split text) (\<lambda>kv.
     res_bind (py_index kv 0) (\<lambda>kv0.
       if startswith kv0 ''application-label:'' then
         res_bind (second_part CHR '':'' kv0) (\<lambda>v.
           base_other_lines rest (dict_set pkg_props ''label'' (PStr v)))
       else if startswith kv0 ''sdkVersion'' then
         res_bind (second_part CHR '':'' kv0) (\<lambda>v.
         res_bind (py_int v) (\<lambda>n.
           base_other_lines rest (dict_set pkg_props ''minSdk'' (PInt n))))
       else if startswith kv0 ''native-code'' then
         res_bind (py_index kv 1) (\<lambda>abi.
         res_bind (py_assert (abi \<in> set known_abis)) (\<lambda>_.
         res_bind (py_assert (dict_get pkg_props ''abis'' = None)) (\<lambda>_.
           base_other_lines rest (dict_set pkg_props ''abis'' (PList [PStr abi])))))
       else base_other_lines rest pkg_props)))"

text \<open>Lines 70 to 92: everything read from the primary artifact's badging.\<close>

definition base_badging :: "string \<Rightarrow> string \<Rightarrow> dict \<Rightarrow> error + dict" where
  "base_badging pkg_name badging pkg_props =
     (let lines = split_on CHR 0x0A badging in
      res_bind (py_index lines 0) (\<lambda>line0.
      res_bind (decode line0) (\<lambda>text0.
      res_bind (shlex_split text0) (\<lambda>kvs.
      res_bind (base_first_line pkg_name kvs pkg_props) (\<lambda>pkg_props.
      res_bind (base_other_lines (butlast (tl lines)) pkg_props) (\<lambda>pkg_props.
      res_bind (py_assert (dict_get pkg_props ''minSdk'' \<noteq> None)) (\<lambda>_.
        Inr pkg_props)))))))"

text \<open>Lines 139 to 144: the tokens of the first badging line of an artifact met in the
  artifact loop.\<close>

fun split_first_line :: "string \<Rightarrow> string list \<Rightarrow> int option \<Rightarrow> error + int option" where
  "split_first_line pkg_name [] apk_version_code = Inr apk_version_code"
| "split_first_line pkg_name (kv # kvs) apk_version_code =
     (if startswith kv ''versionCode'' then
        res_bind (py_assert (apk_version_code = None)) (\<lambda>_.
        res_bind (second_part CHR ''='' kv) (\<lambda>v.
        res_bind (py_int v) (\<lambda>n.
          split_first_line pkg_name kvs (Some n))))
      else if startswith kv ''name'' then
        res_bind (second_part CHR ''='' kv) (\<lambda>v.
        res_bind (py_assert (pkg_name = v)) (\<lambda>_.
          split_first_line pkg_name kvs apk_version_code))
      else split_first_line pkg_name kvs apk_version_code)"

text \<open>Lines 137 to 144 on a badging output: the version code the artifact declares
  (\<open>None\<close> when its first line has no \<open>versionCode\<close> token).\<close>

definition split_badging :: "string \<Rightarrow> string \<Rightarrow> error + int option" where
  "split_badging pkg_name badging =
     res_bind (py_index (split_on CHR 0x0A badging) 0) (\<lambda>line0.
     res_bind (decode line0) (\<lambda>text0.
     res_bind (shlex_split text0) (\<lambda>kvs.
       split_first_line pkg_name kvs None)))"

definition declared_version_code :: "world \<Rightarrow> string \<Rightarrow> string \<Rightarrow> error + int option" where
  "declared_version_code w pkg_name apk_path =
     (case aapt2 w apk_path of
        None \<Rightarrow> Inl CalledProcessError
      | Some badging \<Rightarrow> split_badging pkg_name badging)"

section \<open>The artifact loop (lines 115 to 159)\<close>

text \<open>Lines 121 and 122: \<open>assert os.path.getmtime(a) == os.path.getmtime(b)\<close>.\<close>

definition same_mtime :: "world \<Rightarrow> string \<Rightarrow> string \<Rightarrow> error + unit" where
  "same_mtime w a b =
     res_bind (os_getmtime w a) (\<lambda>ta.
     res_bind (os_getmtime w b) (\<lambda>tb.
       py_assert (ta = tb)))"

text \<open>Lines 130 to 153, the branch taken when the artifact has no sidecar: the signature
  must be the primary's, the declared version code must be the variant's, and only then
  is the artifact hashed and the sidecar written.\<close>

definition hash_and_validate ::
  "world \<Rightarrow> string \<Rightarrow> string \<Rightarrow> dict \<Rightarrow> string \<Rightarrow> string prog" where
  "hash_and_validate w pkg_name base_apk_signature pkg_props apk_path =
     io_bind (load_signature w apk_path) (\<lambda>sg.
     io_bind (if sg \<noteq> base_apk_signature
              then io_raise (Exception (''signature mismatch, apk: '' @ apk_path))
              else io_return ()) (\<lambda>_.
     io_bind (check_output [''aapt2'', ''dump'', ''badging'', apk_path] (aapt2 w apk_path))
       (\<lambda>badging.
     io_bind (io_lift (split_badging pkg_name badging)) (\<lambda>apk_version_code.
     io_bind (io_lift (dict_item pkg_props ''versionCode'')) (\<lambda>vc.
     io_bind (io_lift (py_assert (case apk_version_code of None \<Rightarrow> False
                                                         | Some n \<Rightarrow> py_eq_int vc n))) (\<lambda>_.
     io_bind (read_file apk_path) (\<lambda>content.
     let apk_hash = sha256_hexdigest w content in
     io_bind (write_file (apk_path @ ''.sha256'') apk_hash) (\<lambda>_.
       io_return apk_hash))))))))"

text \<open>Lines 124 to 153: the digest of an artifact, from its sidecar when there is one.\<close>

definition apk_digest ::
  "world \<Rightarrow> string \<Rightarrow> string \<Rightarrow> dict \<Rightarrow> string \<Rightarrow> string prog" where
  "apk_digest w pkg_name base_apk_signature pkg_props apk_path =
     (let apk_hash_path = apk_path @ ''.sha256'' in
      io_bind (isfile apk_hash_path) (\<lambda>cached.
        if cached then
          io_bind (read_file apk_hash_path) (\<lambda>bs. io_lift (text_read bs))
        else hash_and_validate w pkg_name base_apk_signature pkg_props apk_path))"

text \<open>Lines 155 to 159: the five parallel lists grow by one entry each.\<close>

definition record_apk :: "world \<Rightarrow> string \<Rightarrow> string \<Rightarrow> string \<Rightarrow> dict \<Rightarrow> error + dict" where
  "record_apk w apk_path apk_name apk_hash pkg_props =
     res_bind (dict_append pkg_props ''apkHashes'' (Inr (PStr apk_hash))) (\<lambda>p1.
     res_bind (dict_append p1 ''apkSizes'' (os_getsize w apk_path)) (\<lambda>p2.
     res_bind (dict_append p2 ''apkGzSizes'' (os_getsize w (apk_path @ ''.gz''))) (\<lambda>p3.
     res_bind (dict_append p3 ''apkBrSizes'' (os_getsize w (apk_path @ ''.br''))) (\<lambda>p4.
       dict_append p4 ''apks'' (Inr (PStr apk_name))))))"

text \<open>One pass of the loop body.\<close>

definition process_apk ::
  "world \<Rightarrow> string \<Rightarrow> string \<Rightarrow> string \<Rightarrow> string \<Rightarrow> dict \<Rightarrow> dict prog" where
  "process_apk w pkg_name pkg_path base_apk_signature apk_name pkg_props =
     (let apk_path = os_path_join pkg_path apk_name in
      io_bind (io_lift (same_mtime w apk_path (apk_path @ ''.gz''))) (\<lambda>_.
      io_bind (io_lift (same_mtime w apk_path (apk_path @ ''.br''))) (\<lambda>_.
      io_bind (apk_digest w pkg_name base_apk_signature pkg_props apk_path) (\<lambda>apk_hash.
        io_lift (record_apk w apk_path apk_name apk_hash pkg_props)))))"

fun process_apks ::
  "world \<Rightarrow> string \<Rightarrow> string \<Rightarrow> string \<Rightarrow> string list \<Rightarrow> dict \<Rightarrow> dict prog" where
  "process_apks w pkg_name pkg_path base_apk_signature [] pkg_props = io_return pkg_props"
| "process_apks w pkg_name pkg_path base_apk_signature (apk_name # rest) pkg_props =
     io_bind (process_apk w pkg_name pkg_path base_apk_signature apk_name pkg_props)
       (\<lambda>pkg_props'. process_apks w pkg_name pkg_path base_apk_signature rest pkg_props')"

text \<open>\<open>sorted(filter(lambda n: n.endswith(".apk"), os.listdir(pkg_path)))\<close>.\<close>

definition apk_names :: "world \<Rightarrow> string \<Rightarrow> error + string list" where
  "apk_names w pkg_path =
     res_bind (os_listdir w pkg_path) (\<lambda>ns. Inr (sort (filter (\<lambda>n. endswith n ''.apk'') ns)))"

section \<open>One version directory (lines 53 to 166)\<close>

text \<open>Lines 97 to 113: the channel must be one of the four, and the progress message is
  built. The message goes to standard output, which is not modelled; what remains of it
  is whether building it raises: \<open>maxSdk\<close> is concatenated to a string, and \<open>abis\<close>,
  \<open>staticDeps\<close> and \<open>deps\<close> are joined.\<close>

definition channels :: "string list" where
  "channels = [''alpha'', ''beta'', ''stable'', ''old'']"

definition joins_or_absent :: "dict \<Rightarrow> string \<Rightarrow> error + unit" where
  "joins_or_absent pkg_props k =
     (case dict_get pkg_props k of
        None \<Rightarrow> Inr ()
      | Some v \<Rightarrow> if joinable v then Inr () else Inl TypeError)"

definition check_channel :: "dict \<Rightarrow> error + unit" where
  "check_channel pkg_props =
     res_bind (dict_item pkg_props ''channel'') (\<lambda>ch.
     res_bind (py_assert (\<exists>c \<in> set channels. py_eq_str ch c)) (\<lambda>_.
     res_bind (dict_item pkg_props ''minSdk'') (\<lambda>_.
     res_bind (case dict_get pkg_props ''maxSdk'' of
                 None \<Rightarrow> Inr ()
               | Some (PStr _) \<Rightarrow> Inr ()
               | Some _ \<Rightarrow> Inl TypeError) (\<lambda>_.
     res_bind (joins_or_absent pkg_props ''abis'') (\<lambda>_.
     res_bind (joins_or_absent pkg_props ''staticDeps'') (\<lambda>_.
       joins_or_absent pkg_props ''deps''))))))"

text \<open>Lines 94 and 95: every key of the per-version props file overrides the extracted
  value.\<close>

definition merge_props :: "dict \<Rightarrow> dict \<Rightarrow> dict" where
  "merge_props props pkg_props = fold (\<lambda>(k, v) d. dict_set d k v) props pkg_props"

definition initial_props :: "int \<Rightarrow> dict" where
  "initial_props version_code =
     [(''versionCode'', PInt version_code), (''apks'', PList []), (''apkHashes'', PList []),
      (''apkSizes'', PList []), (''apkGzSizes'', PList []), (''apkBrSizes'', PList [])]"

definition process_version ::
  "world \<Rightarrow> string \<Rightarrow> pyval \<Rightarrow> string \<Rightarrow> string \<Rightarrow> dict prog" where
  "process_version w pkg_name pkg_signatures pkg_path pkg_version =
     io_bind (io_lift (py_int pkg_version)) (\<lambda>version_code.
     let base_apk_path = os_path_join pkg_path ''base.apk'' in
     io_bind (isfile base_apk_path) (\<lambda>present.
     io_bind (io_lift (py_assert present)) (\<lambda>_.
     io_bind (load_signature w base_apk_path) (\<lambda>base_apk_signature.
     io_bind (io_lift (py_in base_apk_signature pkg_signatures)) (\<lambda>trusted.
     io_bind (if \<not> trusted
              then io_raise (Exception (''unknown signature of '' @ base_apk_path
                                        @ '', SHA-256: '' @ base_apk_signature))
              else io_return ()) (\<lambda>_.
     io_bind (check_output [''aapt2'', ''dump'', ''badging'', base_apk_path]
                (aapt2 w base_apk_path)) (\<lambda>badging.
     io_bind (io_lift (base_badging pkg_name badging (initial_props version_code)))
       (\<lambda>pkg_props.
     io_bind (load_props w pkg_path ''props'') (\<lambda>props.
     let pkg_props = merge_props props pkg_props in
     io_bind (io_lift (check_channel pkg_props)) (\<lambda>_.
     io_bind (io_lift (apk_names w pkg_path)) (\<lambda>names.
       process_apks w pkg_name pkg_path base_apk_signature names pkg_props)))))))))))"

section \<open>One package, all packages, the manifest (lines 37 to 192)\<close>

text \<open>Lines 163 to 166: a variant of the \<open>old\<close> channel is dropped after it has been
  built; any other is stored under its version directory's name.\<close>

definition keep_variant :: "string \<Rightarrow> dict \<Rightarrow> dict \<Rightarrow> error + dict" where
  "keep_variant pkg_version pkg_props package_variants =
     res_bind (dict_item pkg_props ''channel'') (\<lambda>ch.
       if py_eq_str ch ''old'' then Inr package_variants
       else Inr (dict_set package_variants pkg_version (PDict pkg_props)))"

fun process_versions ::
  "world \<Rightarrow> string \<Rightarrow> pyval \<Rightarrow> string \<Rightarrow> string list \<Rightarrow> dict \<Rightarrow> dict prog" where
  "process_versions w pkg_name pkg_signatures pkg_container_path [] package_variants =
     io_return package_variants"
| "process_versions w pkg_name pkg_signatures pkg_container_path (pkg_version # rest)
       package_variants =
     (let pkg_path = os_path_join pkg_container_path pkg_version in
      if \<not> isdir w pkg_path then
        process_versions w pkg_name pkg_signatures pkg_container_path rest package_variants
      else
        io_bind (process_version w pkg_name pkg_signatures pkg_path pkg_version)
          (\<lambda>pkg_props.
        io_bind (io_lift (keep_variant pkg_version pkg_props package_variants))
          (\<lambda>package_variants'.
          process_versions w pkg_name pkg_signatures pkg_container_path rest
            package_variants')))"

definition packages_dir :: string where
  "packages_dir = ''apps/packages''"

definition process_package :: "world \<Rightarrow> string \<Rightarrow> dict prog" where
  "process_package w pkg_name =
     (let pkg_container_path = os_path_join packages_dir pkg_name in
      io_bind (load_props w pkg_container_path ''common-props'') (\<lambda>loaded.
      io_bind (isfile (os_path_join pkg_container_path ''icon.webp'')) (\<lambda>icon.
      let common_props = (if icon then dict_set loaded ''iconType'' (PStr ''webp'') else loaded) in
      io_bind (io_lift (dict_item common_props ''signatures'')) (\<lambda>pkg_signatures.
      io_bind (io_lift (os_listdir w pkg_container_path)) (\<lambda>versions.
      io_bind (process_versions w pkg_name pkg_signatures pkg_container_path (sort versions) [])
        (\<lambda>package_variants.
        io_return (dict_set common_props ''variants'' (PDict package_variants))))))))"

fun process_packages :: "world \<Rightarrow> string list \<Rightarrow> dict \<Rightarrow> dict prog" where
  "process_packages w [] packages = io_return packages"
| "process_packages w (pkg_name # rest) packages =
     io_bind (process_package w pkg_name) (\<lambda>common_props.
       process_packages w rest (dict_set packages pkg_name (PDict common_props)))"

text \<open>Lines 37 to 169: the compression step and the scan of every package.\<close>

definition scan :: "world \<Rightarrow> dict prog" where
  "scan w =
     io_bind (log_call [''./compress-apks'']) (\<lambda>_.
     io_bind (io_lift (case compress_apks w of None \<Rightarrow> Inl OSError
                                             | Some status \<Rightarrow> py_assert (status = 0))) (\<lambda>_.
     io_bind (io_lift (os_listdir w packages_dir)) (\<lambda>names.
       process_packages w (sort names) [])))"

definition metadata_json :: string where
  "metadata_json = ''apps/metadata.1.json''"

definition metadata_json_sig :: string where
  "metadata_json_sig = ''apps/metadata.1.json.0.sig''"

definition metadata_sjson :: string where
  "metadata_sjson = ''apps/metadata.1.sjson''"

text \<open>Line 184: the signing tool reads the manifest just written and writes the detached
  signature file.\<close>

definition run_signify :: "world \<Rightarrow> unit prog" where
  "run_signify w =
     io_bind (read_file metadata_json) (\<lambda>doc.
     io_bind (check_output [''signify'', ''-S'', ''-s'', ''apps.0.sec'', ''-m'', metadata_json,
                            ''-x'', metadata_json_sig] (signify w doc)) (\<lambda>sig_file.
       write_file metadata_json_sig sig_file))"

text \<open>Lines 171 to 192: the manifest is serialized, signed, copied, and the second line
  of the signature file is appended to the copy.\<close>

definition emit_manifest :: "world \<Rightarrow> dict \<Rightarrow> pyval prog" where
  "emit_manifest w packages =
     (let metadata = PDict [(''time'', PInt (utcnow_timestamp w)), (''packages'', PDict packages)] in
      io_bind (write_file metadata_json (json_dump w metadata)) (\<lambda>_.
      io_bind (run_signify w) (\<lambda>_.
      io_bind (read_file metadata_json_sig) (\<lambda>sig_bytes.
      io_bind (io_lift (text_read sig_bytes)) (\<lambda>sig_text.
      io_bind (io_lift (py_index (splitlines sig_text) 1)) (\<lambda>sg.
      io_bind (read_file metadata_json) (\<lambda>doc.
      io_bind (write_file metadata_sjson doc) (\<lambda>_.
      io_bind (read_file metadata_sjson) (\<lambda>copied.
      io_bind (write_file metadata_sjson (copied @ [CHR 0x0A] @ sg @ [CHR 0x0A])) (\<lambda>_.
        io_return metadata))))))))))"

definition main :: "world \<Rightarrow> pyval prog" where
  "main w = io_bind (scan w) (\<lambda>packages. emit_manifest w packages)"

section \<open>Notions of the specification and a sample repository\<close>


text \<open>A repository with one package \<open>app\<close>, trusted signature \<open>ab12\<close>, and one version
  \<open>7\<close> of channel \<open>stable\<close> with minimum platform version 21, made of \<open>base.apk\<close> and
  \<open>split.apk\<close>, both signed with \<open>ab12\<close>; no sidecar exists yet.\<close>

definition demo_badging :: string where
  "demo_badging =
     ''package: name='' @ [CHR 0x27] @ ''app'' @ [CHR 0x27]
       @ '' versionCode='' @ [CHR 0x27] @ ''7'' @ [CHR 0x27]
       @ '' versionName='' @ [CHR 0x27] @ ''1.0'' @ [CHR 0x27] @ [CHR 0x0A]
       @ ''sdkVersion:'' @ [CHR 0x27] @ ''21'' @ [CHR 0x27] @ [CHR 0x0A]"

definition demo_world :: world where
  "demo_world =
     \<lparr> compress_apks = Some 0,
       listdir = (\<lambda>p.
         if p = ''apps/packages'' then Some [''app'']
         else if p = ''apps/packages/app'' then Some [''common-props.toml'', ''7'']
         else if p = ''apps/packages/app/7''
           then Some [''split.apk'', ''props.toml'', ''base.apk'', ''base.apk.gz'',
                      ''base.apk.br'', ''split.apk.gz'', ''split.apk.br'']
         else None),
       isdir = (\<lambda>p. p = ''apps/packages/app/7''),
       getmtime = (\<lambda>p. Some 1700000000),
       getsize = (\<lambda>p. Some 4096),
       apksigner = (\<lambda>p. Some (''Verifies'' @ [CHR 0x0A]
                      @ ''Signer #1 certificate SHA-256 digest: ab12'' @ [CHR 0x0A])),
       aapt2 = (\<lambda>p. Some demo_badging),
       signify = (\<lambda>doc. Some (''untrusted comment: signature'' @ [CHR 0x0A]
                      @ ''SIGDATA'' @ [CHR 0x0A])),
       tomli_load = (\<lambda>bs.
         if bs = ''common'' then Some [(''signatures'', PList [PStr ''ab12''])]
         else if bs = ''props'' then Some [(''channel'', PStr ''stable'')]
         else None),
       sha256_hexdigest = (\<lambda>bs. ''hash-of-'' @ bs),
       json_dump = (\<lambda>v. ''{}''),
       utcnow_timestamp = 1700000000 \<rparr>"

definition demo_state :: state where
  "demo_state =
     \<lparr> files = (\<lambda>p.
         if p = ''apps/packages/app/common-props.toml'' then Some ''common''
         else if p = ''apps/packages/app/7/props.toml'' then Some ''props''
         else if p = ''apps/packages/app/7/base.apk'' then Some ''B''
         else if p = ''apps/packages/app/7/split.apk'' then Some ''S''
         else None),
       calls = [] \<rparr>"

text \<open>The manifest built from the sample repository.\<close>

definition demo_manifest :: pyval where
  "demo_manifest =
     PDict [(''time'', PInt 1700000000),
       (''packages'', PDict [(''app'', PDict
          [(''signatures'', PList [PStr ''ab12'']),
           (''variants'', PDict [(''7'', PDict
              [(''versionCode'', PInt 7),
               (''apks'', PList [PStr ''base.apk'', PStr ''split.apk'']),
               (''apkHashes'', PList [PStr ''hash-of-B'', PStr ''hash-of-S'']),
               (''apkSizes'', PList [PInt 4096, PInt 4096]),
               (''apkGzSizes'', PList [PInt 4096, PInt 4096]),
               (''apkBrSizes'', PList [PInt 4096, PInt 4096]),
               (''versionName'', PStr ''1.0''),
               (''minSdk'', PInt 21),
               (''channel'', PStr ''stable'')])])])])]"

text \<open>The signature payload of a detached signature file: the second line of its text,
  as lines 186 and 187 read it.\<close>

definition signature_payload :: "string \<Rightarrow> error + string" where
  "signature_payload sig_file = res_bind (text_read sig_file) (\<lambda>t. py_index (splitlines t) 1)"

text \<open>A sidecar path is one that ends in \<open>.sha256\<close>.\<close>

definition is_sidecar :: "string \<Rightarrow> bool" where
  "is_sidecar p = endswith p ''.sha256''"

text \<open>What a step may do to the state: it only adds to the record of subprocess calls,
  it leaves every file outside \<open>Q\<close> as it was, and it removes no file.\<close>

definition frame :: "(string \<Rightarrow> bool) \<Rightarrow> 'a prog \<Rightarrow> bool" where
  "frame Q m =
     (\<forall>s. (\<exists>ys. calls (snd (m s)) = calls s @ ys)
        \<and> (\<forall>p. \<not> Q p \<longrightarrow> files (snd (m s)) p = files s p)
        \<and> (\<forall>p. files s p \<noteq> None \<longrightarrow> files (snd (m s)) p \<noteq> None))"

text \<open>The artifact at a path declares exactly one version code, and it equals \<open>vc\<close>
  under Python's \<open>==\<close>: the check of lines 136 to 146.\<close>

definition version_code_matches :: "world \<Rightarrow> string \<Rightarrow> pyval \<Rightarrow> string \<Rightarrow> bool" where
  "version_code_matches w pkg_name vc apk_path =
     (case declared_version_code w pkg_name apk_path of
        Inr (Some n) \<Rightarrow> py_eq_int vc n
      | _ \<Rightarrow> False)"

text \<open>The props read for a directory: what \<open>load_props\<close> returns, a function of the files.\<close>

definition props_of :: "world \<Rightarrow> state \<Rightarrow> string \<Rightarrow> string \<Rightarrow> error + dict" where
  "props_of w s dir name = fst (load_props w dir name s)"

text \<open>The version directory of a package: lines 43 and 53.\<close>

definition version_path :: "string \<Rightarrow> string \<Rightarrow> string" where
  "version_path pkg_name pkg_version =
     os_path_join (os_path_join packages_dir pkg_name) pkg_version"

text \<open>A later state of the same run: files other than sidecars are as they were, and no
  file has disappeared.\<close>

definition evolves :: "state \<Rightarrow> state \<Rightarrow> bool" where
  "evolves s s' =
     ((\<forall>p. \<not> is_sidecar p \<longrightarrow> files s' p = files s p)
      \<and> (\<forall>p. files s p \<noteq> None \<longrightarrow> files s' p \<noteq> None))"

text \<open>The sample repository with a \<open>split.apk\<close> that is signed with another key
  (\<open>cd34\<close>) and declares version code 8; the same with the version in the \<open>old\<close>
  channel; and a state in which \<open>split.apk\<close> already has a sidecar.\<close>

definition tampered_world :: world where
  "tampered_world =
     demo_world
     \<lparr> apksigner := (\<lambda>p.
         if p = ''apps/packages/app/7/split.apk''
         then Some (''Signer #1 certificate SHA-256 digest: cd34'' @ [CHR 0x0A])
         else apksigner demo_world p),
       aapt2 := (\<lambda>p.
         if p = ''apps/packages/app/7/split.apk''
         then Some (''package: name='' @ [CHR 0x27] @ ''app'' @ [CHR 0x27]
                      @ '' versionCode='' @ [CHR 0x27] @ ''8'' @ [CHR 0x27] @ [CHR 0x0A])
         else aapt2 demo_world p) \<rparr>"

definition tampered_old_world :: world where
  "tampered_old_world =
     tampered_world
     \<lparr> tomli_load := (\<lambda>bs.
         if bs = ''props'' then Some [(''channel'', PStr ''old'')]
         else tomli_load demo_world bs) \<rparr>"

definition cached_state :: state where
  "cached_state =
     demo_state\<lparr>files := (files demo_state)(''apps/packages/app/7/split.apk.sha256'' \<mapsto> ''cafe'')\<rparr>"

text \<open>What the run has established about an artifact path once it has written the
  path's sidecar while processing a version directory.\<close>

definition validated_in :: "world \<Rightarrow> state \<Rightarrow> string \<Rightarrow> pyval \<Rightarrow> string \<Rightarrow> string \<Rightarrow> string \<Rightarrow> bool" where
  "validated_in w s pkg_name sigs pkg_path pkg_version p =
     (\<exists>vc b badging p1 d names v.
          py_int pkg_version = Inr vc
        \<and> signature_of w (os_path_join pkg_path ''base.apk'') = Inr b
        \<and> py_in b sigs = Inr True
        \<and> aapt2 w (os_path_join pkg_path ''base.apk'') = Some badging
        \<and> base_badging pkg_name badging (initial_props vc) = Inr p1
        \<and> props_of w s pkg_path ''props'' = Inr d
        \<and> apk_names w pkg_path = Inr names
        \<and> p \<in> os_path_join pkg_path ` set names
        \<and> signature_of w p = Inr b
        \<and> dict_get (merge_props d p1) ''versionCode'' = Some v
        \<and> version_code_matches w pkg_name v p)"

text \<open>A directory entry's name is not empty and holds no slash; a world is well formed
  when every listing holds such names only.\<close>

definition plain_name :: "string \<Rightarrow> bool" where
  "plain_name n = (n \<noteq> [] \<and> CHR ''/'' \<notin> set n)"

definition wf_names :: "world \<Rightarrow> bool" where
  "wf_names w = (\<forall>dir ns. listdir w dir = Some ns \<longrightarrow> (\<forall>n \<in> set ns. plain_name n))"

text \<open>The trusted-signature set of a package: the \<open>signatures\<close> entry of its common
  props, as lines 44 and 49 read it.\<close>

definition trusted_signatures :: "world \<Rightarrow> state \<Rightarrow> string \<Rightarrow> error + pyval" where
  "trusted_signatures w s pkg_name =
     res_bind (props_of w s (os_path_join packages_dir pkg_name) ''common-props'')
       (\<lambda>cp. dict_item cp ''signatures'')"

text \<open>The variant stored in a manifest for a package and a version directory name.\<close>

definition manifest_variant :: "pyval \<Rightarrow> string \<Rightarrow> string \<Rightarrow> dict option" where
  "manifest_variant manifest pkg_name pkg_version =
     (case manifest of
        PDict root \<Rightarrow>
          (case dict_get root ''packages'' of
             Some (PDict packages) \<Rightarrow>
               (case dict_get packages pkg_name of
                  Some (PDict common_props) \<Rightarrow>
                    (case dict_get common_props ''variants'' of
                       Some (PDict variants) \<Rightarrow>
                         (case dict_get variants pkg_version of
                            Some (PDict pkg_props) \<Rightarrow> Some pkg_props
                          | _ \<Rightarrow> None)
                     | _ \<Rightarrow> None)
                | _ \<Rightarrow> None)
           | _ \<Rightarrow> None)
      | _ \<Rightarrow> None)"

section \<open>Basic facts about the primitives\<close>

lemma res_bind_Inr_iff: "res_bind r f = Inr v \<longleftrightarrow> (\<exists>x. r = Inr x \<and> f x = Inr v)"
  by (cases r) (simp_all add: res_bind_def)

lemma py_assert_Inr_iff: "py_assert b = Inr u \<longleftrightarrow> b"
  by (simp add: py_assert_def)

lemma io_bindE:
  assumes "io_bind m f s = (Inr v, s')"
  obtains x s1 where "m s = (Inr x, s1)" and "f x s1 = (Inr v, s')"
  using assms by (auto simp: io_bind_def split: prod.splits sum.splits)

lemma io_bind_cases:
  assumes "io_bind m f s = (r, s')"
  shows "(\<exists>e. m s = (Inl e, s') \<and> r = Inl e) \<or> (\<exists>x s1. m s = (Inr x, s1) \<and> f x s1 = (r, s'))"
  using assms by (auto simp: io_bind_def split: prod.splits sum.splits)



lemma io_lift_iff: "io_lift r s = (r', s') \<longleftrightarrow> r = r' \<and> s' = s"
  by (auto simp: io_lift_def)

lemma io_return_iff: "io_return x s = (r, s') \<longleftrightarrow> r = Inr x \<and> s' = s"
  by (auto simp: io_return_def)

lemma io_raise_iff: "io_raise e s = (r, s') \<longleftrightarrow> r = Inl e \<and> s' = s"
  by (auto simp: io_raise_def)

lemma isfile_iff: "isfile p s = (r, s') \<longleftrightarrow> r = Inr (files s p \<noteq> None) \<and> s' = s"
  by (auto simp: isfile_def)

lemma read_file_Inr_iff: "read_file p s = (Inr bs, s') \<longleftrightarrow> files s p = Some bs \<and> s' = s"
  by (auto simp: read_file_def split: option.splits)

lemma read_file_state: "read_file p s = (r, s') \<Longrightarrow> s' = s"
  by (auto simp: read_file_def split: option.splits)

lemma write_file_iff:
  "write_file p bs s = (r, s') \<longleftrightarrow> r = Inr () \<and> s' = s\<lparr>files := (files s)(p \<mapsto> bs)\<rparr>"
  by (auto simp: write_file_def)

lemma check_output_eq:
  "check_output argv out s =
     ((case out of None \<Rightarrow> Inl CalledProcessError | Some bs \<Rightarrow> Inr bs),
      s\<lparr>calls := calls s @ [argv]\<rparr>)"
  by (simp add: check_output_def io_bind_def log_call_def io_raise_def io_return_def
      split: option.splits)

lemma load_signature_eq:
  "load_signature w p s =
     (signature_of w p,
      s\<lparr>calls := calls s @ [[''apksigner'', ''verify'', ''--print-certs'', ''--verbose'', p]]\<rparr>)"
  by (simp add: load_signature_def signature_of_def check_output_eq io_bind_def io_lift_def
      split: option.splits)

section \<open>The signature extractor\<close>





section \<open>What each step may write\<close>

lemma frame_return: "frame Q (io_return x)"
  by (simp add: frame_def io_return_def)

lemma frame_raise: "frame Q (io_raise e)"
  by (simp add: frame_def io_raise_def)

lemma frame_lift: "frame Q (io_lift r)"
  by (simp add: frame_def io_lift_def)

lemma frame_isfile: "frame Q (isfile p)"
  by (simp add: frame_def isfile_def)

lemma frame_read_file: "frame Q (read_file p)"
  by (simp add: frame_def read_file_def split: option.splits)

lemma frame_log_call: "frame Q (log_call argv)"
  by (simp add: frame_def log_call_def)

lemma frame_write_file: "Q p \<Longrightarrow> frame Q (write_file p bs)"
  by (auto simp: frame_def write_file_def)

lemma frame_bind:
  assumes "frame Q m" and "\<And>x. frame Q (f x)"
  shows "frame Q (io_bind m f)"
  unfolding frame_def
proof (intro allI)
  fix s
  obtain r s1 where ms: "m s = (r, s1)" by (cases "m s")
  from assms(1) ms have m1: "\<exists>ys. calls s1 = calls s @ ys"
    and m2: "\<forall>p. \<not> Q p \<longrightarrow> files s1 p = files s p"
    and m3: "\<forall>p. files s p \<noteq> None \<longrightarrow> files s1 p \<noteq> None"
    unfolding frame_def by (metis snd_conv)+
  show "(\<exists>ys. calls (snd (io_bind m f s)) = calls s @ ys)
        \<and> (\<forall>p. \<not> Q p \<longrightarrow> files (snd (io_bind m f s)) p = files s p)
        \<and> (\<forall>p. files s p \<noteq> None \<longrightarrow> files (snd (io_bind m f s)) p \<noteq> None)"
  proof (cases r)
    case (Inl e)
    with ms m1 m2 m3 show ?thesis by (simp add: io_bind_def)
  next
    case (Inr x)
    from assms(2) [of x] have f1: "\<exists>ys. calls (snd (f x s1)) = calls s1 @ ys"
      and f2: "\<forall>p. \<not> Q p \<longrightarrow> files (snd (f x s1)) p = files s1 p"
      and f3: "\<forall>p. files s1 p \<noteq> None \<longrightarrow> files (snd (f x s1)) p \<noteq> None"
      unfolding frame_def by blast+
    have eq: "io_bind m f s = f x s1" using ms Inr by (simp add: io_bind_def)
    from m1 f1 have "\<exists>ys. calls (snd (f x s1)) = calls s @ ys" by auto
    with m2 m3 f2 f3 eq show ?thesis by simp
  qed
qed

lemma frame_mono: "frame Q m \<Longrightarrow> (\<And>p. Q p \<Longrightarrow> Q' p) \<Longrightarrow> frame Q' m"
  unfolding frame_def by blast

lemma frame_check_output: "frame Q (check_output argv out)"
  unfolding check_output_def
  by (intro frame_bind frame_log_call) (simp add: frame_raise frame_return split: option.splits)

lemma frame_load_signature: "frame Q (load_signature w p)"
  unfolding load_signature_def by (intro frame_bind frame_check_output frame_lift)

lemma frame_load_props: "frame Q (load_props w dir name)"
  unfolding load_props_def Let_def
  by (intro frame_bind frame_isfile)
     (auto intro!: frame_bind frame_read_file frame_return frame_raise split: option.splits)

lemmas frame_basic = frame_return frame_raise frame_lift frame_isfile frame_read_file
  frame_log_call frame_check_output frame_load_signature frame_load_props

lemma frame_hash_and_validate:
  "Q (apk_path @ ''.sha256'') \<Longrightarrow> frame Q (hash_and_validate w pkg_name b pkg_props apk_path)"
  unfolding hash_and_validate_def Let_def
  by (intro frame_bind frame_basic frame_write_file) (auto intro: frame_basic)

lemma frame_apk_digest:
  "Q (apk_path @ ''.sha256'') \<Longrightarrow> frame Q (apk_digest w pkg_name b pkg_props apk_path)"
  unfolding apk_digest_def Let_def
  by (intro frame_bind frame_basic) (auto intro!: frame_bind frame_basic frame_hash_and_validate)

lemma frame_process_apk:
  "Q (os_path_join pkg_path apk_name @ ''.sha256'')
     \<Longrightarrow> frame Q (process_apk w pkg_name pkg_path b apk_name pkg_props)"
  unfolding process_apk_def Let_def
  by (intro frame_bind frame_basic frame_apk_digest)

lemma frame_process_apks:
  "(\<And>a. a \<in> set names \<Longrightarrow> Q (os_path_join pkg_path a @ ''.sha256''))
     \<Longrightarrow> frame Q (process_apks w pkg_name pkg_path b names pkg_props)"
proof (induction names arbitrary: pkg_props)
  case Nil
  then show ?case by (simp add: frame_return)
next
  case (Cons a names)
  show ?case
    unfolding process_apks.simps
    by (intro frame_bind frame_process_apk Cons.IH) (simp_all add: Cons.prems)
qed

lemma is_sidecar_append: "is_sidecar (p @ ''.sha256'')"
  by (simp add: is_sidecar_def endswith_def)

lemma frame_process_version:
  "frame is_sidecar (process_version w pkg_name sigs pkg_path pkg_version)"
  unfolding process_version_def Let_def
  by (intro frame_bind frame_basic frame_process_apks)
     (auto intro!: frame_basic is_sidecar_append)

lemma frame_process_versions:
  "frame is_sidecar (process_versions w pkg_name sigs container versions acc)"
proof (induction versions arbitrary: acc)
  case Nil
  then show ?case by (simp add: frame_return)
next
  case (Cons v versions)
  show ?case
    unfolding process_versions.simps Let_def
    by (auto intro!: frame_bind frame_basic frame_process_version Cons.IH)
qed

lemma frame_process_package: "frame is_sidecar (process_package w pkg_name)"
  unfolding process_package_def Let_def
  by (intro frame_bind frame_basic frame_process_versions)

lemma frame_process_packages: "frame is_sidecar (process_packages w names acc)"
proof (induction names arbitrary: acc)
  case Nil
  then show ?case by (simp add: frame_return)
next
  case (Cons n names)
  show ?case
    unfolding process_packages.simps
    by (intro frame_bind frame_process_package Cons.IH)
qed

lemma frame_scan: "frame is_sidecar (scan w)"
  unfolding scan_def
  by (intro frame_bind frame_basic frame_process_packages)

lemma frame_calls: "frame Q m \<Longrightarrow> \<exists>ys. calls (snd (m s)) = calls s @ ys"
  unfolding frame_def by blast

lemma frame_files: "frame Q m \<Longrightarrow> \<not> Q p \<Longrightarrow> files (snd (m s)) p = files s p"
  unfolding frame_def by blast

lemma frame_keeps: "frame Q m \<Longrightarrow> files s p \<noteq> None \<Longrightarrow> files (snd (m s)) p \<noteq> None"
  unfolding frame_def by blast

lemma process_apk_mtimes:
  assumes "process_apk w pkg_name pkg_path b apk_name pkg_props s = (Inr pkg_props', s')"
  shows "\<exists>t. getmtime w (os_path_join pkg_path apk_name) = Some t
           \<and> getmtime w (os_path_join pkg_path apk_name @ ''.gz'') = Some t
           \<and> getmtime w (os_path_join pkg_path apk_name @ ''.br'') = Some t"
  using assms unfolding process_apk_def Let_def
  by (auto elim!: io_bindE simp: io_lift_iff same_mtime_def res_bind_Inr_iff os_getmtime_def
      py_assert_def split: option.splits if_splits)

lemma frame_emit_manifest: "frame (\<lambda>p. True) (emit_manifest w packages)"
  unfolding emit_manifest_def run_signify_def Let_def
  by (intro frame_bind frame_basic frame_write_file) simp_all

lemma frame_main: "frame (\<lambda>p. True) (main w)"
  unfolding main_def
  by (intro frame_bind frame_emit_manifest frame_mono [OF frame_scan]) simp

section \<open>The compression step\<close>

text \<open>
  C2 (as amended). Every run starts the compression tool \<open>./compress-apks\<close> as its first
  subprocess and aborts at once unless the tool exits with status 0. Afterwards, for every
  artifact it takes into a variant, the \<open>.gz\<close> and \<open>.br\<close> companions exist and have
  exactly the artifact's modification time.
\<close>

theorem compression_tool_is_invoked_first:
  "(\<exists>rest. calls (snd (main w s)) = calls s @ [''./compress-apks''] # rest)
   \<and> (compress_apks w \<noteq> Some 0 \<longrightarrow>
        (\<exists>e. main w s = (Inl e, s\<lparr>calls := calls s @ [[''./compress-apks'']]\<rparr>)))
   \<and> (\<forall>pkg_name pkg_path b apk_name pkg_props pkg_props' s1 s2.
        process_apk w pkg_name pkg_path b apk_name pkg_props s1 = (Inr pkg_props', s2) \<longrightarrow>
        (\<exists>t. getmtime w (os_path_join pkg_path apk_name) = Some t
           \<and> getmtime w (os_path_join pkg_path apk_name @ ''.gz'') = Some t
           \<and> getmtime w (os_path_join pkg_path apk_name @ ''.br'') = Some t))"
proof -
  let ?s1 = "s\<lparr>calls := calls s @ [[''./compress-apks'']]\<rparr>"
  let ?rest = "io_bind (io_bind (io_lift (case compress_apks w of None \<Rightarrow> Inl OSError
                                             | Some status \<Rightarrow> py_assert (status = 0))) (\<lambda>_.
     io_bind (io_lift (os_listdir w packages_dir)) (\<lambda>names.
       process_packages w (sort names) []))) (\<lambda>packages. emit_manifest w packages)"
  have step: "main w s = ?rest ?s1"
    by (simp add: main_def scan_def io_bind_def log_call_def split: prod.splits sum.splits)
  have "frame (\<lambda>p. True) ?rest"
    by (intro frame_bind frame_basic frame_emit_manifest frame_mono [OF frame_process_packages])
       simp
  from frame_calls [OF this, of ?s1] obtain ys where "calls (snd (?rest ?s1)) = calls ?s1 @ ys"
    by blast
  then have first: "\<exists>rest. calls (snd (main w s)) = calls s @ [''./compress-apks''] # rest"
    using step by simp
  have abort: "\<exists>e. main w s = (Inl e, ?s1)" if "compress_apks w \<noteq> Some 0"
    using that unfolding step
    by (cases "compress_apks w") (auto simp: io_bind_def io_lift_def py_assert_def)
  from first abort process_apk_mtimes show ?thesis by blast
qed

theorem compression_tool_is_invoked_first_witness:
  "compress_apks (demo_world\<lparr>compress_apks := Some 1\<rparr>) \<noteq> Some 0
   \<and> (\<exists>e. main (demo_world\<lparr>compress_apks := Some 1\<rparr>) demo_state
           = (Inl e, demo_state\<lparr>calls := calls demo_state @ [[''./compress-apks'']]\<rparr>))
   \<and> (\<exists>pkg_props' s2.
         process_apk demo_world ''app'' ''apps/packages/app/7'' ''ab12'' ''base.apk''
           (initial_props 7) demo_state = (Inr pkg_props', s2))
   \<and> (\<exists>t. getmtime demo_world (os_path_join ''apps/packages/app/7'' ''base.apk'') = Some t
         \<and> getmtime demo_world (os_path_join ''apps/packages/app/7'' ''base.apk'' @ ''.gz'') = Some t
         \<and> getmtime demo_world (os_path_join ''apps/packages/app/7'' ''base.apk'' @ ''.br'') = Some t)"
proof -
  let ?w = "demo_world\<lparr>compress_apks := Some 1\<rparr>"
  have failing: "compress_apks ?w \<noteq> Some 0"
    by simp
  have "fst (process_apk demo_world ''app'' ''apps/packages/app/7'' ''ab12''
           ''base.apk'' (initial_props 7) demo_state)
      = Inr [(''versionCode'', PInt 7), (''apks'', PList [PStr ''base.apk'']),
             (''apkHashes'', PList [PStr ''hash-of-B'']), (''apkSizes'', PList [PInt 4096]),
             (''apkGzSizes'', PList [PInt 4096]), (''apkBrSizes'', PList [PInt 4096])]"
    by code_simp
  then obtain pkg_props' s2 where
    step: "process_apk demo_world ''app'' ''apps/packages/app/7'' ''ab12'' ''base.apk''
             (initial_props 7) demo_state = (Inr pkg_props', s2)"
    by (metis prod.collapse)
  from compression_tool_is_invoked_first [of ?w demo_state] failing
  have aborts: "\<exists>e. main ?w demo_state
       = (Inl e, demo_state\<lparr>calls := calls demo_state @ [[''./compress-apks'']]\<rparr>)"
    by blast
  from compression_tool_is_invoked_first [of demo_world demo_state] step
  have "\<exists>t. getmtime demo_world (os_path_join ''apps/packages/app/7'' ''base.apk'') = Some t
         \<and> getmtime demo_world (os_path_join ''apps/packages/app/7'' ''base.apk'' @ ''.gz'') = Some t
         \<and> getmtime demo_world (os_path_join ''apps/packages/app/7'' ''base.apk'' @ ''.br'') = Some t"
    by blast
  with failing aborts step show ?thesis by blast
qed

text \<open>The claim as stated fails on the sample repository: the run starts the compression
  tool.\<close>

theorem compression_never_invoked_counterexample:
  "[''./compress-apks''] \<in> set (calls (snd (main demo_world demo_state)))"
  by code_simp

section \<open>The signed manifest\<close>

lemma metadata_paths_distinct:
  "metadata_json \<noteq> metadata_json_sig" "metadata_json \<noteq> metadata_sjson"
  "metadata_json_sig \<noteq> metadata_sjson"
  by (simp_all add: metadata_json_def metadata_json_sig_def metadata_sjson_def)

lemma emit_manifest_Inr:
  assumes "emit_manifest w packages s = (Inr md, s')"
  shows "md = PDict [(''time'', PInt (utcnow_timestamp w)), (''packages'', PDict packages)]
     \<and> (\<exists>sig_file sg. signify w (json_dump w md) = Some sig_file
          \<and> signature_payload sig_file = Inr sg
          \<and> files s' metadata_json = Some (json_dump w md)
          \<and> files s' metadata_json_sig = Some sig_file
          \<and> files s' metadata_sjson = Some (json_dump w md @ [CHR 0x0A] @ sg @ [CHR 0x0A]))"
  using assms metadata_paths_distinct unfolding emit_manifest_def run_signify_def Let_def
  by (auto elim!: io_bindE simp: io_lift_iff io_return_iff write_file_iff read_file_Inr_iff
      check_output_eq signature_payload_def res_bind_Inr_iff split: option.splits)

text \<open>
  C9. After a run that returns normally, the secondary file \<open>metadata.1.sjson\<close> holds the
  bytes of the canonical serialized manifest, a newline, the signature payload and a
  newline, where the payload is the second line of the detached signature file that the
  signing tool produced for the canonical manifest.
\<close>

theorem signed_manifest_layout:
  assumes "main w s = (Inr md, s')"
  shows "\<exists>sig_file sg. signify w (json_dump w md) = Some sig_file
          \<and> signature_payload sig_file = Inr sg
          \<and> files s' metadata_json = Some (json_dump w md)
          \<and> files s' metadata_json_sig = Some sig_file
          \<and> files s' metadata_sjson = Some (json_dump w md @ [CHR 0x0A] @ sg @ [CHR 0x0A])"
  using assms unfolding main_def by (elim io_bindE) (drule emit_manifest_Inr, blast)

theorem signed_manifest_layout_witness:
  "fst (main demo_world demo_state) = Inr demo_manifest
   \<and> files (snd (main demo_world demo_state)) metadata_sjson
       = Some (''{}'' @ [CHR 0x0A] @ ''SIGDATA'' @ [CHR 0x0A])"
proof -
  have run: "fst (main demo_world demo_state) = Inr demo_manifest"
    by code_simp
  then have "main demo_world demo_state = (Inr demo_manifest, snd (main demo_world demo_state))"
    by (metis prod.collapse)
  from signed_manifest_layout [OF this] obtain sig_file sg where
    tool: "signify demo_world (json_dump demo_world demo_manifest) = Some sig_file" and
    payload: "signature_payload sig_file = Inr sg" and
    sjson: "files (snd (main demo_world demo_state)) metadata_sjson
       = Some (json_dump demo_world demo_manifest @ [CHR 0x0A] @ sg @ [CHR 0x0A])"
    by blast
  from tool have "sig_file = ''untrusted comment: signature'' @ [CHR 0x0A] @ ''SIGDATA'' @ [CHR 0x0A]"
    by (simp add: demo_world_def)
  moreover have "signature_payload
      (''untrusted comment: signature'' @ [CHR 0x0A] @ ''SIGDATA'' @ [CHR 0x0A]) = Inr ''SIGDATA''"
    by code_simp
  ultimately have "sg = ''SIGDATA''"
    using payload by simp
  with sjson run show ?thesis
    by (simp add: demo_world_def)
qed

section \<open>Propagation of failures\<close>

lemma is_sidecar_last: "is_sidecar p \<Longrightarrow> last p = CHR ''6''"
proof -
  assume "is_sidecar p"
  then have "drop (length p - length ''.sha256'') p = ''.sha256''"
    unfolding is_sidecar_def endswith_def by blast
  then have "p = take (length p - length ''.sha256'') p @ ''.sha256''"
    by (metis append_take_drop_id)
  then have "last p = last (take (length p - length ''.sha256'') p @ ''.sha256'')"
    by simp
  also have "\<dots> = CHR ''6''"
    by (simp del: length_Cons)
  finally show ?thesis .
qed

lemma os_path_join_last:
  "b \<noteq> [] \<Longrightarrow> last (os_path_join a b) = last b"
  by (simp add: os_path_join_def)


lemma toml_not_sidecar: "\<not> is_sidecar (os_path_join dir (name @ ''.toml''))"
  by (auto dest!: is_sidecar_last simp: os_path_join_last)

lemma process_package_without_common_props:
  assumes "files s (os_path_join (os_path_join packages_dir pkg_name) ''common-props.toml'') = None"
  shows "process_package w pkg_name s = (Inl (KeyError ''signatures''), s)"
  using assms
  by (simp add: process_package_def load_props_def Let_def io_bind_def isfile_def io_return_def
      io_lift_def dict_item_def dict_set_def)

lemma process_packages_reach:
  assumes "process_packages w names acc s = (Inr r, s')" and "pkg_name \<in> set names"
  shows "\<exists>s1 v s2. process_package w pkg_name s1 = (Inr v, s2)
           \<and> (\<forall>p. \<not> is_sidecar p \<longrightarrow> files s1 p = files s p)"
  using assms
proof (induction names arbitrary: acc s)
  case Nil
  then show ?case by simp
next
  case (Cons n names)
  from Cons.prems(1) obtain cp s1 where
    first: "process_package w n s = (Inr cp, s1)" and
    rest: "process_packages w names (dict_set acc n (PDict cp)) s1 = (Inr r, s')"
    by (auto elim!: io_bindE)
  show ?case
  proof (cases "pkg_name = n")
    case True
    with first show ?thesis by blast
  next
    case False
    with Cons.prems(2) have "pkg_name \<in> set names" by simp
    from Cons.IH [OF rest this] obtain s2 v s3 where
      ok: "process_package w pkg_name s2 = (Inr v, s3)" and
      same: "\<forall>p. \<not> is_sidecar p \<longrightarrow> files s2 p = files s1 p"
      by blast
    have "files s1 p = files s p" if "\<not> is_sidecar p" for p
      using frame_files [OF frame_process_package that, of w n s] first by simp
    with ok same show ?thesis by (metis (no_types, lifting))
  qed
qed

lemma scan_Inr:
  assumes "scan w s = (Inr packages, s')"
  shows "\<exists>names. listdir w packages_dir = Some names \<and> compress_apks w = Some 0
     \<and> process_packages w (sort names) [] (s\<lparr>calls := calls s @ [[''./compress-apks'']]\<rparr>)
          = (Inr packages, s')"
  using assms unfolding scan_def
  by (auto elim!: io_bindE simp: io_lift_iff log_call_def os_listdir_def py_assert_def
      split: option.splits if_splits)

text \<open>
  C8 (as amended). \<open>load_props\<close> itself treats a missing common-props file as the empty
  mapping and does not raise, but the package aggregator then looks up the \<open>signatures\<close>
  key unconditionally: for a package directory without a common-props file the package step
  raises \<open>KeyError\<close>, and a run over a repository that lists such a package aborts.
\<close>

theorem common_props_is_required:
  assumes "files s (os_path_join (os_path_join packages_dir pkg_name) ''common-props.toml'') = None"
  shows "load_props w (os_path_join packages_dir pkg_name) ''common-props'' s = (Inr [], s)
     \<and> process_package w pkg_name s = (Inl (KeyError ''signatures''), s)
     \<and> (\<forall>names. listdir w packages_dir = Some names \<longrightarrow> pkg_name \<in> set names \<longrightarrow>
          (\<exists>e. fst (main w s) = Inl e))"
proof -
  let ?cp = "os_path_join (os_path_join packages_dir pkg_name) ''common-props.toml''"
  have loads: "load_props w (os_path_join packages_dir pkg_name) ''common-props'' s = (Inr [], s)"
    using assms by (simp add: load_props_def Let_def io_bind_def isfile_def io_return_def)
  have aborts: "\<exists>e. fst (main w s) = Inl e"
    if listing: "listdir w packages_dir = Some names" and listed: "pkg_name \<in> set names" for names
  proof (cases "fst (main w s)")
    case (Inl e)
    then show ?thesis by blast
  next
    case (Inr md)
    then have "main w s = (Inr md, snd (main w s))" by (metis prod.collapse)
    then obtain packages s1 where "scan w s = (Inr packages, s1)"
      unfolding main_def by (auto elim!: io_bindE)
    from scan_Inr [OF this] listing have
      "process_packages w (sort names) [] (s\<lparr>calls := calls s @ [[''./compress-apks'']]\<rparr>)
         = (Inr packages, s1)"
      by auto
    from process_packages_reach [OF this, of pkg_name] listed obtain s2 v s3 where
      ok: "process_package w pkg_name s2 = (Inr v, s3)" and
      same: "\<forall>p. \<not> is_sidecar p \<longrightarrow> files s2 p = files s p"
      by auto
    have "\<not> is_sidecar ?cp"
      using toml_not_sidecar [of "os_path_join packages_dir pkg_name" "''common-props''"] by simp
    with same assms have "files s2 ?cp = None" by simp
    from process_package_without_common_props [OF this, of w] ok show ?thesis by simp
  qed
  from loads process_package_without_common_props [OF assms, of w] aborts show ?thesis by blast
qed

theorem common_props_is_required_witness:
  "files (demo_state\<lparr>files := (files demo_state)(''apps/packages/app/common-props.toml'' := None)\<rparr>)
       (os_path_join (os_path_join packages_dir ''app'') ''common-props.toml'') = None
   \<and> listdir demo_world packages_dir = Some [''app'']
   \<and> process_package demo_world ''app''
        (demo_state\<lparr>files := (files demo_state)(''apps/packages/app/common-props.toml'' := None)\<rparr>)
       = (Inl (KeyError ''signatures''),
          demo_state\<lparr>files := (files demo_state)(''apps/packages/app/common-props.toml'' := None)\<rparr>)
   \<and> (\<exists>e. fst (main demo_world
        (demo_state\<lparr>files := (files demo_state)(''apps/packages/app/common-props.toml'' := None)\<rparr>))
         = Inl e)"
proof -
  let ?s = "demo_state\<lparr>files := (files demo_state)(''apps/packages/app/common-props.toml'' := None)\<rparr>"
  have missing: "files ?s (os_path_join (os_path_join packages_dir ''app'') ''common-props.toml'') = None"
    by code_simp
  have listing: "listdir demo_world packages_dir = Some [''app'']"
    by (simp add: demo_world_def packages_dir_def)
  from common_props_is_required [OF missing, of demo_world] listing missing
  show ?thesis by simp
qed

text \<open>The claim as stated fails: without the common-props file the sample repository's
  run aborts instead of processing the package.\<close>

theorem common_props_optional_counterexample:
  "files (demo_state\<lparr>files := (files demo_state)(''apps/packages/app/common-props.toml'' := None)\<rparr>)
       ''apps/packages/app/common-props.toml'' = None
   \<and> fst (main demo_world
        (demo_state\<lparr>files := (files demo_state)(''apps/packages/app/common-props.toml'' := None)\<rparr>))
       = Inl (KeyError ''signatures'')"
  by code_simp

section \<open>What a failing run leaves behind\<close>





section \<open>The artifact loop and the hash cache\<close>

lemma dict_get_dict_set: "dict_get (dict_set d k v) k' = (if k' = k then Some v else dict_get d k')"
  by (simp add: dict_get_def dict_set_def update_conv')

lemma dict_item_eq: "dict_item d k = Inr v \<longleftrightarrow> dict_get d k = Some v"
  by (simp add: dict_item_def dict_get_def split: option.splits)

lemma dict_append_Inr:
  assumes "dict_append d k arg = Inr d'"
  shows "\<exists>xs x. dict_get d k = Some (PList xs) \<and> arg = Inr x \<and> d' = dict_set d k (PList (xs @ [x]))"
proof -
  from assms obtain v where v: "dict_get d k = Some v" and
    rest: "(case v of PList xs \<Rightarrow> res_bind arg (\<lambda>x. Inr (dict_set d k (PList (xs @ [x]))))
                   | _ \<Rightarrow> Inl AttributeError) = Inr d'"
    unfolding dict_append_def by (auto simp: res_bind_Inr_iff dict_item_eq)
  from rest obtain xs where "v = PList xs" by (cases v) simp_all
  with v rest show ?thesis by (auto simp: res_bind_Inr_iff)
qed

lemma dict_append_other:
  "dict_append d k arg = Inr d' \<Longrightarrow> k' \<noteq> k \<Longrightarrow> dict_get d' k' = dict_get d k'"
  by (auto dest!: dict_append_Inr simp: dict_get_dict_set)

lemma record_apk_other:
  assumes "record_apk w apk_path apk_name apk_hash pkg_props = Inr pkg_props'"
    and "k \<notin> {''apkHashes'', ''apkSizes'', ''apkGzSizes'', ''apkBrSizes'', ''apks''}"
  shows "dict_get pkg_props' k = dict_get pkg_props k"
  using assms unfolding record_apk_def
  by (auto simp: res_bind_Inr_iff dest!: dict_append_other [where k' = k])

lemma record_apk_hash:
  assumes "record_apk w apk_path apk_name apk_hash pkg_props = Inr pkg_props'"
  shows "\<exists>hs. dict_get pkg_props ''apkHashes'' = Some (PList hs)
           \<and> dict_get pkg_props' ''apkHashes'' = Some (PList (hs @ [PStr apk_hash]))"
proof -
  from assms obtain p1 p2 p3 p4 where
    a1: "dict_append pkg_props ''apkHashes'' (Inr (PStr apk_hash)) = Inr p1" and
    a2: "dict_append p1 ''apkSizes'' (os_getsize w apk_path) = Inr p2" and
    a3: "dict_append p2 ''apkGzSizes'' (os_getsize w (apk_path @ ''.gz'')) = Inr p3" and
    a4: "dict_append p3 ''apkBrSizes'' (os_getsize w (apk_path @ ''.br'')) = Inr p4" and
    a5: "dict_append p4 ''apks'' (Inr (PStr apk_name)) = Inr pkg_props'"
    unfolding record_apk_def by (auto simp: res_bind_Inr_iff)
  have "dict_get pkg_props' ''apkHashes'' = dict_get p1 ''apkHashes''"
    using dict_append_other [OF a2, of "''apkHashes''"] dict_append_other [OF a3, of "''apkHashes''"]
      dict_append_other [OF a4, of "''apkHashes''"] dict_append_other [OF a5, of "''apkHashes''"]
    by simp
  with dict_append_Inr [OF a1] show ?thesis
    by (auto simp: dict_get_dict_set)
qed

text \<open>The cache-miss branch, whatever its outcome: either it wrote nothing, or every check
  passed and the sidecar now holds the digest of the artifact's content.\<close>

lemma hash_and_validate_cases:
  assumes "hash_and_validate w pkg_name b pkg_props apk_path s = (r, s')"
  shows "files s' = files s \<and> (\<forall>h. r \<noteq> Inr h)
     \<or> (signature_of w apk_path = Inr b
        \<and> (\<exists>vc n. dict_get pkg_props ''versionCode'' = Some vc
              \<and> declared_version_code w pkg_name apk_path = Inr (Some n) \<and> py_eq_int vc n)
        \<and> (\<exists>content. files s apk_path = Some content
              \<and> r = Inr (sha256_hexdigest w content)
              \<and> files s' = (files s)(apk_path @ ''.sha256'' \<mapsto> sha256_hexdigest w content)))"
  using assms unfolding hash_and_validate_def Let_def
  by (auto dest!: io_bind_cases
      simp: load_signature_eq check_output_eq io_lift_iff io_raise_iff io_return_iff
        write_file_iff read_file_def dict_item_eq declared_version_code_def py_assert_def
      split: option.splits if_splits)

lemma process_apk_cases:
  assumes "process_apk w pkg_name pkg_path b apk_name pkg_props s = (r, s')"
  shows "files s' = files s
        \<and> (files s (os_path_join pkg_path apk_name @ ''.sha256'') = None \<longrightarrow> (\<forall>x. r \<noteq> Inr x))
     \<or> (files s (os_path_join pkg_path apk_name @ ''.sha256'') = None
        \<and> signature_of w (os_path_join pkg_path apk_name) = Inr b
        \<and> (\<exists>vc. dict_get pkg_props ''versionCode'' = Some vc
              \<and> version_code_matches w pkg_name vc (os_path_join pkg_path apk_name))
        \<and> (\<exists>content. files s (os_path_join pkg_path apk_name) = Some content
              \<and> files s' = (files s)(os_path_join pkg_path apk_name @ ''.sha256''
                                       \<mapsto> sha256_hexdigest w content)))"
proof -
  let ?p = "os_path_join pkg_path apk_name"
  from assms consider
      (early) "files s' = files s" "\<forall>x. r \<noteq> Inr x"
    | (digest) h s1 where "apk_digest w pkg_name b pkg_props ?p s = (h, s1)"
        "files s' = files s1" "(\<forall>x. h \<noteq> Inr x) \<longrightarrow> (\<forall>x. r \<noteq> Inr x)"
    unfolding process_apk_def Let_def
    by (auto dest!: io_bind_cases simp: io_lift_iff)
  then show ?thesis
  proof cases
    case early
    then show ?thesis by simp
  next
    case digest
    show ?thesis
    proof (cases "files s (?p @ ''.sha256'')")
      case (Some bs)
      with digest(1) have "files s1 = files s"
        unfolding apk_digest_def Let_def
        by (auto dest!: io_bind_cases simp: isfile_iff io_lift_iff read_file_def)
      with digest(2) Some show ?thesis by simp
    next
      case None
      with digest(1) have "hash_and_validate w pkg_name b pkg_props ?p s = (h, s1)"
        unfolding apk_digest_def Let_def
        by (auto dest!: io_bind_cases simp: isfile_iff)
      from hash_and_validate_cases [OF this] digest(2,3) None show ?thesis
        by (auto simp: version_code_matches_def)
    qed
  qed
qed

lemma process_apk_Inr:
  assumes "process_apk w pkg_name pkg_path b apk_name pkg_props s = (Inr pkg_props', s')"
  shows "files s' (os_path_join pkg_path apk_name @ ''.sha256'') \<noteq> None
     \<and> (\<forall>k. k \<notin> {''apkHashes'', ''apkSizes'', ''apkGzSizes'', ''apkBrSizes'', ''apks''}
            \<longrightarrow> dict_get pkg_props' k = dict_get pkg_props k)"
proof -
  let ?p = "os_path_join pkg_path apk_name"
  from assms obtain h where
    rec: "record_apk w ?p apk_name h pkg_props = Inr pkg_props'"
    unfolding process_apk_def Let_def
    by (auto elim!: io_bindE simp: io_lift_iff)
  from process_apk_cases [OF assms] have "files s' (?p @ ''.sha256'') \<noteq> None"
    by (cases "files s (?p @ ''.sha256'')") auto
  with record_apk_other [OF rec] show ?thesis by blast
qed

lemma process_apks_Inr:
  assumes "process_apks w pkg_name pkg_path b names pkg_props s = (Inr pkg_props', s')"
  shows "(\<forall>a \<in> set names. files s' (os_path_join pkg_path a @ ''.sha256'') \<noteq> None)
     \<and> (\<forall>a \<in> set names. \<exists>t. getmtime w (os_path_join pkg_path a) = Some t
            \<and> getmtime w (os_path_join pkg_path a @ ''.gz'') = Some t
            \<and> getmtime w (os_path_join pkg_path a @ ''.br'') = Some t)
     \<and> (\<forall>k. k \<notin> {''apkHashes'', ''apkSizes'', ''apkGzSizes'', ''apkBrSizes'', ''apks''}
            \<longrightarrow> dict_get pkg_props' k = dict_get pkg_props k)"
  using assms
proof (induction names arbitrary: pkg_props s)
  case Nil
  then show ?case by (simp add: io_return_iff)
next
  case (Cons a names)
  from Cons.prems obtain p1 s1 where
    first: "process_apk w pkg_name pkg_path b a pkg_props s = (Inr p1, s1)" and
    rest: "process_apks w pkg_name pkg_path b names p1 s1 = (Inr pkg_props', s')"
    by (auto elim!: io_bindE)
  have "frame (\<lambda>p. True) (process_apks w pkg_name pkg_path b names p1)"
    by (rule frame_process_apks) simp
  from frame_keeps [OF this, of s1 "os_path_join pkg_path a @ ''.sha256''"]
  have kept: "files s' (os_path_join pkg_path a @ ''.sha256'') \<noteq> None"
    using process_apk_Inr [OF first] rest by simp
  from Cons.IH [OF rest] process_apk_Inr [OF first] process_apk_mtimes [OF first] kept
  show ?case by auto
qed

text \<open>A sidecar that appears during the artifact loop belongs to an artifact of the loop
  that passed the signature and version-code checks.\<close>

lemma process_apks_written:
  assumes "process_apks w pkg_name pkg_path b names pkg_props s = (r, s')"
    and "files s (p @ ''.sha256'') = None" and "files s' (p @ ''.sha256'') \<noteq> None"
  shows "p \<in> os_path_join pkg_path ` set names
     \<and> signature_of w p = Inr b
     \<and> (\<exists>vc. dict_get pkg_props ''versionCode'' = Some vc \<and> version_code_matches w pkg_name vc p)"
  using assms
proof (induction names arbitrary: pkg_props s)
  case Nil
  then show ?case by (simp add: io_return_iff)
next
  case (Cons a names)
  obtain r1 s1 where first: "process_apk w pkg_name pkg_path b a pkg_props s = (r1, s1)"
    by (cases "process_apk w pkg_name pkg_path b a pkg_props s")
  show ?case
  proof (cases "files s1 (p @ ''.sha256'')")
    case (Some bs)
    with process_apk_cases [OF first] Cons.prems(2)
    have "p @ ''.sha256'' = os_path_join pkg_path a @ ''.sha256''
        \<and> signature_of w (os_path_join pkg_path a) = Inr b
        \<and> (\<exists>vc. dict_get pkg_props ''versionCode'' = Some vc
              \<and> version_code_matches w pkg_name vc (os_path_join pkg_path a))"
      by (auto split: if_splits)
    then show ?thesis by auto
  next
    case None
    show ?thesis
    proof (cases r1)
      case (Inl e)
      with first Cons.prems(1) have "s' = s1" by (simp add: io_bind_def)
      with None Cons.prems(3) show ?thesis by simp
    next
      case (Inr p1)
      with first Cons.prems(1) have
        rest: "process_apks w pkg_name pkg_path b names p1 s1 = (r, s')"
        by (simp add: io_bind_def)
      from process_apk_Inr first Inr have
        "dict_get p1 ''versionCode'' = dict_get pkg_props ''versionCode''"
        by fastforce
      with Cons.IH [OF rest None Cons.prems(3)] show ?thesis by auto
    qed
  qed
qed

section \<open>The variant builder\<close>

lemma load_props_eq:
  "load_props w dir name s =
     ((case files s (os_path_join dir (name @ ''.toml'')) of
         None \<Rightarrow> Inr []
       | Some bs \<Rightarrow> (case tomli_load w bs of None \<Rightarrow> Inl TOMLDecodeError | Some d \<Rightarrow> Inr d)), s)"
  by (simp add: load_props_def Let_def io_bind_def isfile_def read_file_def io_return_def
      io_raise_def split: option.splits)

lemma process_version_Inr:
  assumes "process_version w pkg_name sigs pkg_path pkg_version s = (Inr pkg_props, s')"
  shows "\<exists>vc b badging p1 d names s1.
      py_int pkg_version = Inr vc
    \<and> files s (os_path_join pkg_path ''base.apk'') \<noteq> None
    \<and> signature_of w (os_path_join pkg_path ''base.apk'') = Inr b
    \<and> py_in b sigs = Inr True
    \<and> aapt2 w (os_path_join pkg_path ''base.apk'') = Some badging
    \<and> base_badging pkg_name badging (initial_props vc) = Inr p1
    \<and> props_of w s pkg_path ''props'' = Inr d
    \<and> check_channel (merge_props d p1) = Inr ()
    \<and> apk_names w pkg_path = Inr names
    \<and> files s1 = files s
    \<and> process_apks w pkg_name pkg_path b names (merge_props d p1) s1 = (Inr pkg_props, s')"
proof -
  from assms obtain vc b badging p1 d names s1 s2 where
    "py_int pkg_version = Inr vc"
    "files s (os_path_join pkg_path ''base.apk'') \<noteq> None"
    "signature_of w (os_path_join pkg_path ''base.apk'') = Inr b"
    "py_in b sigs = Inr True"
    "aapt2 w (os_path_join pkg_path ''base.apk'') = Some badging"
    "base_badging pkg_name badging (initial_props vc) = Inr p1"
    "load_props w pkg_path ''props'' s2 = (Inr d, s1)" "files s2 = files s"
    "check_channel (merge_props d p1) = Inr ()"
    "apk_names w pkg_path = Inr names"
    "process_apks w pkg_name pkg_path b names (merge_props d p1) s1 = (Inr pkg_props, s')"
    unfolding process_version_def Let_def
    by (elim io_bindE)
       (auto simp: io_lift_iff isfile_iff load_signature_eq check_output_eq
          io_raise_iff io_return_iff py_assert_def split: if_splits option.splits)
  moreover from this have "s1 = s2" and "props_of w s pkg_path ''props'' = Inr d"
    by (auto simp: load_props_eq props_of_def)
  ultimately show ?thesis by auto
qed

section \<open>The hash cache\<close>

text \<open>
  C10. For every artifact that has no sidecar when its turn in the artifact loop comes: the
  sidecar exists afterwards only if the artifact's signature equals the primary's, its
  declared version code equals the variant's and its content was read and hashed, and
  then the sidecar holds that digest. If the signature check or the version-code check
  fails, or the content cannot be read, the step raises, no file changes and the sidecar
  still does not exist, so the next run validates the artifact again.
\<close>

theorem sidecar_written_only_after_validation:
  assumes "process_apk w pkg_name pkg_path b apk_name pkg_props s = (r, s')"
    and "files s (os_path_join pkg_path apk_name @ ''.sha256'') = None"
  shows "(files s' (os_path_join pkg_path apk_name @ ''.sha256'') \<noteq> None \<longrightarrow>
            signature_of w (os_path_join pkg_path apk_name) = Inr b
          \<and> (\<exists>vc. dict_get pkg_props ''versionCode'' = Some vc
                \<and> version_code_matches w pkg_name vc (os_path_join pkg_path apk_name))
          \<and> (\<exists>content. files s (os_path_join pkg_path apk_name) = Some content
                \<and> files s' (os_path_join pkg_path apk_name @ ''.sha256'')
                    = Some (sha256_hexdigest w content)))
       \<and> (signature_of w (os_path_join pkg_path apk_name) \<noteq> Inr b
          \<or> \<not> (\<exists>vc. dict_get pkg_props ''versionCode'' = Some vc
                  \<and> version_code_matches w pkg_name vc (os_path_join pkg_path apk_name))
          \<or> files s (os_path_join pkg_path apk_name) = None \<longrightarrow>
            (\<exists>e. r = Inl e) \<and> files s' = files s
          \<and> files s' (os_path_join pkg_path apk_name @ ''.sha256'') = None)"
proof -
  let ?p = "os_path_join pkg_path apk_name"
  from process_apk_cases [OF assms(1)] assms(2) consider
      (unchanged) "files s' = files s" "\<forall>x. r \<noteq> Inr x"
    | (written) "signature_of w ?p = Inr b"
        "\<exists>vc. dict_get pkg_props ''versionCode'' = Some vc \<and> version_code_matches w pkg_name vc ?p"
        "\<exists>content. files s ?p = Some content
           \<and> files s' = (files s)(?p @ ''.sha256'' \<mapsto> sha256_hexdigest w content)"
    by blast
  then show ?thesis
  proof cases
    case unchanged
    then have failed: "\<exists>e. r = Inl e" by (cases r) auto
    from unchanged(1) assms(2) have "files s' (?p @ ''.sha256'') = None" by simp
    with failed unchanged(1) show ?thesis by blast
  next
    case written
    then show ?thesis by auto
  qed
qed

theorem sidecar_written_only_after_validation_witness:
  "files demo_state (os_path_join ''apps/packages/app/7'' ''split.apk'' @ ''.sha256'') = None
   \<and> files (snd (process_apk demo_world ''app'' ''apps/packages/app/7'' ''ab12'' ''split.apk''
               (initial_props 7) demo_state))
        (os_path_join ''apps/packages/app/7'' ''split.apk'' @ ''.sha256'') \<noteq> None
   \<and> signature_of demo_world (os_path_join ''apps/packages/app/7'' ''split.apk'') = Inr ''ab12''
   \<and> signature_of tampered_world (os_path_join ''apps/packages/app/7'' ''split.apk'') \<noteq> Inr ''ab12''
   \<and> (\<exists>e. fst (process_apk tampered_world ''app'' ''apps/packages/app/7'' ''ab12'' ''split.apk''
               (initial_props 7) demo_state) = Inl e)
   \<and> files (snd (process_apk tampered_world ''app'' ''apps/packages/app/7'' ''ab12'' ''split.apk''
               (initial_props 7) demo_state))
        (os_path_join ''apps/packages/app/7'' ''split.apk'' @ ''.sha256'') = None"
proof -
  let ?sc = "os_path_join ''apps/packages/app/7'' ''split.apk'' @ ''.sha256''"
  have absent: "files demo_state ?sc = None"
    by code_simp
  have written: "files (snd (process_apk demo_world ''app'' ''apps/packages/app/7'' ''ab12''
      ''split.apk'' (initial_props 7) demo_state)) ?sc \<noteq> None"
    by code_simp
  have bad: "signature_of tampered_world (os_path_join ''apps/packages/app/7'' ''split.apk'')
      \<noteq> Inr ''ab12''"
    by code_simp
  from sidecar_written_only_after_validation [OF surjective_pairing absent, of demo_world
      "''app''" "''ab12''" "initial_props 7"] written
  have good: "signature_of demo_world (os_path_join ''apps/packages/app/7'' ''split.apk'')
      = Inr ''ab12''"
    by blast
  from sidecar_written_only_after_validation [OF surjective_pairing absent, of tampered_world
      "''app''" "''ab12''" "initial_props 7"] bad
  have "(\<exists>e. fst (process_apk tampered_world ''app'' ''apps/packages/app/7'' ''ab12'' ''split.apk''
               (initial_props 7) demo_state) = Inl e)
     \<and> files (snd (process_apk tampered_world ''app'' ''apps/packages/app/7'' ''ab12'' ''split.apk''
               (initial_props 7) demo_state)) ?sc = None"
    by blast
  with absent written bad good show ?thesis by blast
qed

text \<open>
  C4. If the sidecar of an artifact exists with contents \<open>cached\<close> when the artifact is
  processed and the step succeeds, the digest appended to the variant's \<open>apkHashes\<close> is
  the text \<open>D\<close> read from the sidecar, the state is unchanged (no tool is started and
  nothing is written), and the outcome is the same for any content of the artifact, any
  verification and badging tool output and any digest function: the artifact is neither
  read nor hashed.
\<close>

theorem sidecar_digest_is_trusted:
  assumes "files s (os_path_join pkg_path apk_name @ ''.sha256'') = Some cached"
    and "process_apk w pkg_name pkg_path b apk_name pkg_props s = (Inr pkg_props', s')"
  shows "(\<exists>D hs. text_read cached = Inr D
            \<and> dict_get pkg_props ''apkHashes'' = Some (PList hs)
            \<and> dict_get pkg_props' ''apkHashes'' = Some (PList (hs @ [PStr D])))
       \<and> s' = s
       \<and> (\<forall>content tool1 tool2 digest pkg_name' b'.
            process_apk (w\<lparr>apksigner := tool1, aapt2 := tool2, sha256_hexdigest := digest\<rparr>)
              pkg_name' pkg_path b' apk_name pkg_props
              (s\<lparr>files := (files s)(os_path_join pkg_path apk_name := content)\<rparr>)
            = (Inr pkg_props', s\<lparr>files := (files s)(os_path_join pkg_path apk_name := content)\<rparr>))"
proof -
  let ?p = "os_path_join pkg_path apk_name"
  have eq: "process_apk w' pkg_name' pkg_path b' apk_name pkg_props t =
      (res_bind (same_mtime w' ?p (?p @ ''.gz'')) (\<lambda>_.
       res_bind (same_mtime w' ?p (?p @ ''.br'')) (\<lambda>_.
       res_bind (text_read cached) (\<lambda>h. record_apk w' ?p apk_name h pkg_props))), t)"
    if "files t (?p @ ''.sha256'') = Some cached" for w' pkg_name' b' t
    using that
    by (simp add: process_apk_def apk_digest_def Let_def io_bind_def io_lift_def isfile_def
        read_file_def res_bind_def split: sum.splits)
  from assms(2) eq [OF assms(1), of w pkg_name b] have
    res: "res_bind (same_mtime w ?p (?p @ ''.gz'')) (\<lambda>_.
       res_bind (same_mtime w ?p (?p @ ''.br'')) (\<lambda>_.
       res_bind (text_read cached) (\<lambda>h. record_apk w ?p apk_name h pkg_props))) = Inr pkg_props'"
    and same: "s' = s"
    by simp_all
  from res obtain D where D: "text_read cached = Inr D"
    and rec: "record_apk w ?p apk_name D pkg_props = Inr pkg_props'"
    by (auto simp: res_bind_Inr_iff)
  have indep: "process_apk (w\<lparr>apksigner := tool1, aapt2 := tool2, sha256_hexdigest := digest\<rparr>)
        pkg_name' pkg_path b' apk_name pkg_props (s\<lparr>files := (files s)(?p := content)\<rparr>)
      = (Inr pkg_props', s\<lparr>files := (files s)(?p := content)\<rparr>)"
    for content tool1 tool2 digest pkg_name' b'
  proof -
    have "files (s\<lparr>files := (files s)(?p := content)\<rparr>) (?p @ ''.sha256'') = Some cached"
      using assms(1) by simp
    from eq [OF this] res show ?thesis
      by (simp add: same_mtime_def os_getmtime_def record_apk_def os_getsize_def)
  qed
  from D record_apk_hash [OF rec] same indep show ?thesis by blast
qed

theorem sidecar_digest_is_trusted_witness:
  "files cached_state (os_path_join ''apps/packages/app/7'' ''split.apk'' @ ''.sha256'') = Some ''cafe''
   \<and> fst (process_apk tampered_world ''app'' ''apps/packages/app/7'' ''ab12'' ''split.apk''
           (initial_props 7) cached_state)
       = Inr [(''versionCode'', PInt 7), (''apks'', PList [PStr ''split.apk'']),
              (''apkHashes'', PList [PStr ''cafe'']), (''apkSizes'', PList [PInt 4096]),
              (''apkGzSizes'', PList [PInt 4096]), (''apkBrSizes'', PList [PInt 4096])]
   \<and> snd (process_apk tampered_world ''app'' ''apps/packages/app/7'' ''ab12'' ''split.apk''
           (initial_props 7) cached_state) = cached_state
   \<and> (\<exists>D hs. text_read ''cafe'' = Inr D
         \<and> dict_get (initial_props 7) ''apkHashes'' = Some (PList hs)
         \<and> dict_get [(''versionCode'', PInt 7), (''apks'', PList [PStr ''split.apk'']),
              (''apkHashes'', PList [PStr ''cafe'']), (''apkSizes'', PList [PInt 4096]),
              (''apkGzSizes'', PList [PInt 4096]), (''apkBrSizes'', PList [PInt 4096])]
             ''apkHashes'' = Some (PList (hs @ [PStr D])))"
proof -
  let ?r = "[(''versionCode'', PInt 7), (''apks'', PList [PStr ''split.apk'']),
              (''apkHashes'', PList [PStr ''cafe'']), (''apkSizes'', PList [PInt 4096]),
              (''apkGzSizes'', PList [PInt 4096]), (''apkBrSizes'', PList [PInt 4096])]"
  have cached: "files cached_state (os_path_join ''apps/packages/app/7'' ''split.apk'' @ ''.sha256'')
      = Some ''cafe''"
    by code_simp
  have run: "fst (process_apk tampered_world ''app'' ''apps/packages/app/7'' ''ab12'' ''split.apk''
           (initial_props 7) cached_state) = Inr ?r"
    by code_simp
  then have full: "process_apk tampered_world ''app'' ''apps/packages/app/7'' ''ab12'' ''split.apk''
      (initial_props 7) cached_state
      = (Inr ?r, snd (process_apk tampered_world ''app'' ''apps/packages/app/7'' ''ab12''
           ''split.apk'' (initial_props 7) cached_state))"
    by (metis prod.collapse)
  from sidecar_digest_is_trusted [OF cached full] cached run show ?thesis
    by blast
qed

section \<open>Version codes, channels and overrides\<close>

lemma startswith_shorter:
  "startswith kv p \<Longrightarrow> n \<le> length p \<Longrightarrow> take n kv = take n p"
  by (metis startswith_def take_take min.absorb1 min.commute)

lemma versionName_not_versionCode:
  "startswith kv ''versionName'' \<Longrightarrow> \<not> startswith kv ''versionCode''"
  by (auto simp: startswith_def)

lemma version_not_name:
  assumes "startswith kv ''versionName'' \<or> startswith kv ''versionCode''"
  shows "\<not> startswith kv ''name''"
proof
  assume n: "startswith kv ''name''"
  from assms have "take 1 kv = ''v''"
    by (auto dest!: startswith_shorter [where n = 1])
  moreover from n have "take 1 kv = ''n''"
    by (auto dest!: startswith_shorter [where n = 1])
  ultimately show False by simp
qed

text \<open>The primary's loop accepts a token list only if every version code on it is the
  variant's; the artifact loop's scan of the same tokens then finds that code.\<close>

lemma base_first_line_versionCode:
  "base_first_line pkg_name kvs pkg_props = Inr pkg_props'
     \<Longrightarrow> dict_get pkg_props' ''versionCode'' = dict_get pkg_props ''versionCode''"
proof (induction kvs arbitrary: pkg_props)
  case Nil
  then show ?case by simp
next
  case (Cons kv kvs)
  then show ?case
    by (auto simp: res_bind_Inr_iff dict_get_dict_set split: if_splits)
qed

lemma first_lines_agree:
  assumes "base_first_line pkg_name kvs pkg_props = Inr pkg_props'"
    and "dict_get pkg_props ''versionCode'' = Some (PInt vc)"
    and "split_first_line pkg_name kvs acc = Inr (Some n)"
  shows "acc = Some n \<or> n = vc"
  using assms
proof (induction kvs arbitrary: pkg_props acc)
  case Nil
  then show ?case by simp
next
  case (Cons kv kvs)
  show ?case
  proof (cases "startswith kv ''versionName''")
    case True
    with versionName_not_versionCode [OF True] version_not_name [of kv] Cons.prems
    obtain v where
      b: "base_first_line pkg_name kvs (dict_set pkg_props ''versionName'' (PStr v)) = Inr pkg_props'"
      and s: "split_first_line pkg_name kvs acc = Inr (Some n)"
      by (auto simp: res_bind_Inr_iff)
    from Cons.prems(2) have "dict_get (dict_set pkg_props ''versionName'' (PStr v)) ''versionCode''
        = Some (PInt vc)"
      by (simp add: dict_get_dict_set)
    from Cons.IH [OF b this s] show ?thesis .
  next
    case notName: False
    show ?thesis
    proof (cases "startswith kv ''versionCode''")
      case True
      with notName Cons.prems obtain m where
        b: "base_first_line pkg_name kvs pkg_props = Inr pkg_props'" and
        m: "m = vc" and
        s: "split_first_line pkg_name kvs (Some m) = Inr (Some n)"
        by (auto simp: res_bind_Inr_iff dict_item_eq py_assert_def split: if_splits)
      from Cons.IH [OF b Cons.prems(2) s] m show ?thesis by auto
    next
      case False
      with notName Cons.prems have
        b: "base_first_line pkg_name kvs pkg_props = Inr pkg_props'" and
        s: "split_first_line pkg_name kvs acc = Inr (Some n)"
        by (auto simp: res_bind_Inr_iff split: if_splits)
      from Cons.IH [OF b Cons.prems(2) s] show ?thesis .
    qed
  qed
qed

lemma base_other_lines_versionCode:
  "base_other_lines ls pkg_props = Inr pkg_props'
     \<Longrightarrow> dict_get pkg_props' ''versionCode'' = dict_get pkg_props ''versionCode''"
proof (induction ls arbitrary: pkg_props)
  case Nil
  then show ?case by simp
next
  case (Cons l ls)
  then show ?case
    by (auto simp: res_bind_Inr_iff dict_get_dict_set split: if_splits)
qed

lemma base_badging_versionCode:
  assumes "base_badging pkg_name badging (initial_props vc) = Inr p1"
  shows "dict_get p1 ''versionCode'' = Some (PInt vc)
     \<and> (\<forall>n. split_badging pkg_name badging = Inr (Some n) \<longrightarrow> n = vc)"
proof -
  have init: "dict_get (initial_props vc) ''versionCode'' = Some (PInt vc)"
    by (simp add: initial_props_def dict_get_def)
  from assms obtain line0 text0 kvs p0 where
    l: "py_index (split_on CHR 0x0A badging) 0 = Inr line0" "decode line0 = Inr text0"
       "shlex_split text0 = Inr kvs" and
    f: "base_first_line pkg_name kvs (initial_props vc) = Inr p0" and
    o: "base_other_lines (butlast (tl (split_on CHR 0x0A badging))) p0 = Inr p1"
    unfolding base_badging_def Let_def by (auto simp: res_bind_Inr_iff)
  from base_other_lines_versionCode [OF o] base_first_line_versionCode [OF f] init
  have "dict_get p1 ''versionCode'' = Some (PInt vc)" by simp
  moreover have "n = vc" if "split_badging pkg_name badging = Inr (Some n)" for n
  proof -
    from that l have "split_first_line pkg_name kvs None = Inr (Some n)"
      unfolding split_badging_def by (auto simp: res_bind_Inr_iff)
    from first_lines_agree [OF f init this] show ?thesis by simp
  qed
  ultimately show ?thesis by blast
qed

lemma merge_props_other:
  "k \<notin> fst ` set props \<Longrightarrow> dict_get (merge_props props d) k = dict_get d k"
  unfolding merge_props_def
  by (induction props arbitrary: d) (auto simp: dict_get_dict_set)

lemma py_eq_str_iff: "py_eq_str x s \<longleftrightarrow> x = PStr s"
  by (cases x) auto

lemma check_channel_Inr:
  assumes "check_channel pkg_props = Inr u"
  shows "\<exists>ch. dict_get pkg_props ''channel'' = Some (PStr ch) \<and> ch \<in> set channels"
  using assms unfolding check_channel_def
  by (auto simp: res_bind_Inr_iff dict_item_eq py_assert_def py_eq_str_iff split: if_splits)

section \<open>From the manifest back to the variant builder\<close>

lemma evolves_refl: "evolves s s"
  by (simp add: evolves_def)

lemma evolves_trans: "evolves s s1 \<Longrightarrow> evolves s1 s2 \<Longrightarrow> evolves s s2"
  by (simp add: evolves_def)

lemma frame_evolves: "frame is_sidecar m \<Longrightarrow> m s = (r, s') \<Longrightarrow> evolves s s'"
  unfolding frame_def evolves_def by (metis snd_conv)

lemma props_of_evolves: "evolves s s1 \<Longrightarrow> props_of w s1 dir name = props_of w s dir name"
  using toml_not_sidecar [of dir name]
  by (simp add: props_of_def load_props_eq evolves_def)

lemma set_update_subset: "set (AList.update k v al) \<subseteq> insert (k, v) (set al)"
  by (induction al) auto

lemma dict_set_mem: "(k', x) \<in> set (dict_set d k v) \<Longrightarrow> (k', x) = (k, v) \<or> (k', x) \<in> set d"
  using set_update_subset [of k v d] by (auto simp: dict_set_def)

lemma process_versions_emitted:
  assumes "process_versions w pkg_name sigs container vs acc s = (Inr acc', s')"
    and "(v, x) \<in> set acc'"
  shows "(v, x) \<in> set acc
     \<or> (\<exists>pkg_props s1 s2. x = PDict pkg_props \<and> v \<in> set vs
          \<and> isdir w (os_path_join container v)
          \<and> process_version w pkg_name sigs (os_path_join container v) v s1 = (Inr pkg_props, s2)
          \<and> (\<exists>ch. dict_get pkg_props ''channel'' = Some ch \<and> \<not> py_eq_str ch ''old'')
          \<and> evolves s s1 \<and> evolves s2 s')"
  using assms
proof (induction vs arbitrary: acc s)
  case Nil
  then show ?case by (simp add: io_return_iff)
next
  case (Cons a vs)
  show ?case
  proof (cases "isdir w (os_path_join container a)")
    case False
    with Cons.prems(1) have
      "process_versions w pkg_name sigs container vs acc s = (Inr acc', s')"
      by (simp add: Let_def)
    from Cons.IH [OF this Cons.prems(2)] show ?thesis by auto
  next
    case True
    with Cons.prems(1) obtain pkg_props s1 acc1 where
      first: "process_version w pkg_name sigs (os_path_join container a) a s = (Inr pkg_props, s1)" and
      keep: "keep_variant a pkg_props acc = Inr acc1" and
      rest: "process_versions w pkg_name sigs container vs acc1 s1 = (Inr acc', s')"
      by (auto simp: Let_def io_lift_iff elim!: io_bindE)
    have e1: "evolves s s1"
      using frame_evolves [OF frame_process_version first] .
    have e2: "evolves s1 s'"
      using frame_evolves [OF frame_process_versions rest] .
    from Cons.IH [OF rest Cons.prems(2)] consider
        (old) "(v, x) \<in> set acc1"
      | (new) pkg_props' s2 s3 where "x = PDict pkg_props'" "v \<in> set vs"
          "isdir w (os_path_join container v)"
          "process_version w pkg_name sigs (os_path_join container v) v s2 = (Inr pkg_props', s3)"
          "\<exists>ch. dict_get pkg_props' ''channel'' = Some ch \<and> \<not> py_eq_str ch ''old''"
          "evolves s1 s2" "evolves s3 s'"
      by blast
    then show ?thesis
    proof cases
      case old
      from keep obtain ch where ch: "dict_get pkg_props ''channel'' = Some ch" and
        acc1: "acc1 = (if py_eq_str ch ''old'' then acc else dict_set acc a (PDict pkg_props))"
        unfolding keep_variant_def by (auto simp: res_bind_Inr_iff dict_item_eq split: if_splits)
      show ?thesis
      proof (cases "(v, x) \<in> set acc")
        case True
        then show ?thesis by simp
      next
        case False
        with old acc1 have "\<not> py_eq_str ch ''old''" and "(v, x) = (a, PDict pkg_props)"
          by (auto split: if_splits dest: dict_set_mem)
        with first True ch e1 e2 evolves_refl [of s] show ?thesis by auto
      qed
    next
      case new
      with e1 evolves_trans [OF e1] show ?thesis by auto
    qed
  qed
qed

lemma process_package_Inr:
  assumes "process_package w pkg_name s = (Inr common_props, s')"
  shows "\<exists>loaded sigs versions variants.
       props_of w s (os_path_join packages_dir pkg_name) ''common-props'' = Inr loaded
     \<and> dict_get loaded ''signatures'' = Some sigs
     \<and> listdir w (os_path_join packages_dir pkg_name) = Some versions
     \<and> process_versions w pkg_name sigs (os_path_join packages_dir pkg_name) (sort versions) [] s
          = (Inr variants, s')
     \<and> dict_get common_props ''signatures'' = Some sigs
     \<and> dict_get common_props ''variants'' = Some (PDict variants)"
  using assms unfolding process_package_def Let_def
  by (auto elim!: io_bindE
      simp: io_lift_iff io_return_iff isfile_iff load_props_eq dict_item_eq props_of_def
        os_listdir_def dict_get_dict_set
      split: option.splits if_splits)

lemma process_package_emitted:
  assumes "process_package w pkg_name s = (Inr common_props, s')"
  shows "\<exists>sigs variants versions. dict_get common_props ''signatures'' = Some sigs
     \<and> trusted_signatures w s pkg_name = Inr sigs
     \<and> dict_get common_props ''variants'' = Some (PDict variants)
     \<and> listdir w (os_path_join packages_dir pkg_name) = Some versions
     \<and> (\<forall>v x. (v, x) \<in> set variants \<longrightarrow>
          (\<exists>pkg_props s1 s2. x = PDict pkg_props \<and> v \<in> set versions
             \<and> process_version w pkg_name sigs (version_path pkg_name v) v s1 = (Inr pkg_props, s2)
             \<and> (\<exists>ch. dict_get pkg_props ''channel'' = Some ch \<and> \<not> py_eq_str ch ''old'')
             \<and> evolves s s1 \<and> evolves s2 s'))"
proof -
  from process_package_Inr [OF assms] obtain loaded sigs versions variants where
    loaded: "props_of w s (os_path_join packages_dir pkg_name) ''common-props'' = Inr loaded"
      "dict_get loaded ''signatures'' = Some sigs" and
    listing: "listdir w (os_path_join packages_dir pkg_name) = Some versions" and
    vs: "process_versions w pkg_name sigs (os_path_join packages_dir pkg_name) (sort versions) [] s
          = (Inr variants, s')" and
    cp: "dict_get common_props ''signatures'' = Some sigs"
      "dict_get common_props ''variants'' = Some (PDict variants)"
    by blast
  from loaded have "trusted_signatures w s pkg_name = Inr sigs"
    by (simp add: trusted_signatures_def res_bind_def dict_item_eq)
  moreover have "\<exists>pkg_props s1 s2. x = PDict pkg_props \<and> v \<in> set versions
             \<and> process_version w pkg_name sigs (version_path pkg_name v) v s1 = (Inr pkg_props, s2)
             \<and> (\<exists>ch. dict_get pkg_props ''channel'' = Some ch \<and> \<not> py_eq_str ch ''old'')
             \<and> evolves s s1 \<and> evolves s2 s'"
    if "(v, x) \<in> set variants" for v x
    using process_versions_emitted [OF vs that] by (auto simp: version_path_def)
  ultimately show ?thesis using listing cp by blast
qed

lemma process_packages_emitted:
  assumes "process_packages w names acc s = (Inr acc', s')" and "(n, x) \<in> set acc'"
  shows "(n, x) \<in> set acc
     \<or> (\<exists>cp s1 s2. x = PDict cp \<and> n \<in> set names
          \<and> process_package w n s1 = (Inr cp, s2) \<and> evolves s s1 \<and> evolves s2 s')"
  using assms
proof (induction names arbitrary: acc s)
  case Nil
  then show ?case by (simp add: io_return_iff)
next
  case (Cons a names)
  from Cons.prems(1) obtain cp s1 where
    first: "process_package w a s = (Inr cp, s1)" and
    rest: "process_packages w names (dict_set acc a (PDict cp)) s1 = (Inr acc', s')"
    by (auto elim!: io_bindE)
  have e1: "evolves s s1"
    using frame_evolves [OF frame_process_package first] .
  have e2: "evolves s1 s'"
    using frame_evolves [OF frame_process_packages rest] .
  from Cons.IH [OF rest Cons.prems(2)] show ?case
  proof
    assume "(n, x) \<in> set (dict_set acc a (PDict cp))"
    then have "(n, x) = (a, PDict cp) \<or> (n, x) \<in> set acc" by (rule dict_set_mem)
    with first e2 evolves_refl [of s] show ?thesis by auto
  next
    assume "\<exists>cp s2 s3. x = PDict cp \<and> n \<in> set names
          \<and> process_package w n s2 = (Inr cp, s3) \<and> evolves s1 s2 \<and> evolves s3 s'"
    with evolves_trans [OF e1] show ?thesis by auto
  qed
qed

text \<open>Every variant of the manifest was built by the variant builder, in a state the run
  reached, for a listed package and version directory and with the package's trusted
  signatures.\<close>

lemma scan_emitted:
  assumes "scan w s = (Inr packages, s')"
    and "(pkg_name, PDict common_props) \<in> set packages"
    and "dict_get common_props ''variants'' = Some (PDict variants)"
    and "(pkg_version, PDict pkg_props) \<in> set variants"
  shows "\<exists>sigs names versions s1 s2. dict_get common_props ''signatures'' = Some sigs
     \<and> trusted_signatures w s pkg_name = Inr sigs
     \<and> listdir w packages_dir = Some names \<and> pkg_name \<in> set names
     \<and> listdir w (os_path_join packages_dir pkg_name) = Some versions
     \<and> pkg_version \<in> set versions
     \<and> process_version w pkg_name sigs (version_path pkg_name pkg_version) pkg_version s1
          = (Inr pkg_props, s2)
     \<and> (\<exists>ch. dict_get pkg_props ''channel'' = Some ch \<and> \<not> py_eq_str ch ''old'')
     \<and> evolves s s1 \<and> evolves s2 s'"
proof -
  let ?s0 = "s\<lparr>calls := calls s @ [[''./compress-apks'']]\<rparr>"
  from scan_Inr [OF assms(1)] obtain names where
    names: "listdir w packages_dir = Some names" and
    "process_packages w (sort names) [] ?s0 = (Inr packages, s')"
    by blast
  from process_packages_emitted [OF this(2) assms(2)] obtain s1 s2 where
    listed: "pkg_name \<in> set names" and
    pk: "process_package w pkg_name s1 = (Inr common_props, s2)" and
    e: "evolves ?s0 s1" "evolves s2 s'"
    by auto
  have e0: "evolves s ?s0" by (simp add: evolves_def)
  from process_package_emitted [OF pk] assms(3,4) obtain sigs versions s3 s4 where
    f: "dict_get common_props ''signatures'' = Some sigs"
      "trusted_signatures w s1 pkg_name = Inr sigs"
      "listdir w (os_path_join packages_dir pkg_name) = Some versions"
      "pkg_version \<in> set versions"
      "process_version w pkg_name sigs (version_path pkg_name pkg_version) pkg_version s3
         = (Inr pkg_props, s4)"
      "\<exists>ch. dict_get pkg_props ''channel'' = Some ch \<and> \<not> py_eq_str ch ''old''"
      "evolves s1 s3" "evolves s4 s2"
    by fastforce
  from evolves_trans [OF e0 e(1)] have "evolves s s1" .
  with f(2) have "trusted_signatures w s pkg_name = Inr sigs"
    by (simp add: trusted_signatures_def props_of_evolves)
  with f names listed e \<open>evolves s s1\<close> show ?thesis by (blast intro: evolves_trans)
qed

section \<open>Sidecars written by a run\<close>

text \<open>The variant builder, whatever its outcome: either no file changed, or it reached
  the artifact loop.\<close>

lemma process_version_cases:
  assumes "process_version w pkg_name sigs pkg_path pkg_version s = (r, s')"
  shows "files s' = files s \<and> (\<exists>e. r = Inl e)
     \<or> (\<exists>vc b badging p1 d names s1.
          py_int pkg_version = Inr vc
        \<and> files s (os_path_join pkg_path ''base.apk'') \<noteq> None
        \<and> signature_of w (os_path_join pkg_path ''base.apk'') = Inr b
        \<and> py_in b sigs = Inr True
        \<and> aapt2 w (os_path_join pkg_path ''base.apk'') = Some badging
        \<and> base_badging pkg_name badging (initial_props vc) = Inr p1
        \<and> props_of w s pkg_path ''props'' = Inr d
        \<and> check_channel (merge_props d p1) = Inr ()
        \<and> apk_names w pkg_path = Inr names
        \<and> files s1 = files s
        \<and> process_apks w pkg_name pkg_path b names (merge_props d p1) s1 = (r, s'))"
  using assms unfolding process_version_def Let_def
  apply (auto dest!: io_bind_cases
      simp: io_lift_iff isfile_iff load_signature_eq check_output_eq load_props_eq props_of_def
        io_raise_iff io_return_iff py_assert_def
      split: if_splits option.splits)
  done

lemma process_version_written:
  assumes "process_version w pkg_name sigs pkg_path pkg_version s = (r, s')"
    and "files s (p @ ''.sha256'') = None" and "files s' (p @ ''.sha256'') \<noteq> None"
  shows "validated_in w s pkg_name sigs pkg_path pkg_version p"
proof -
  from process_version_cases [OF assms(1)] assms(2,3) obtain vc b badging p1 d names s1 where
    f: "py_int pkg_version = Inr vc"
      "signature_of w (os_path_join pkg_path ''base.apk'') = Inr b"
      "py_in b sigs = Inr True"
      "aapt2 w (os_path_join pkg_path ''base.apk'') = Some badging"
      "base_badging pkg_name badging (initial_props vc) = Inr p1"
      "props_of w s pkg_path ''props'' = Inr d"
      "apk_names w pkg_path = Inr names" and
    s1: "files s1 = files s" and
    loop: "process_apks w pkg_name pkg_path b names (merge_props d p1) s1 = (r, s')"
    by auto
  from process_apks_written [OF loop] s1 assms(2,3) have
    "p \<in> os_path_join pkg_path ` set names" "signature_of w p = Inr b"
    "\<exists>v. dict_get (merge_props d p1) ''versionCode'' = Some v \<and> version_code_matches w pkg_name v p"
    by auto
  with f show ?thesis unfolding validated_in_def by blast
qed

lemma validated_in_evolves:
  "evolves s s1 \<Longrightarrow> validated_in w s1 pkg_name sigs pkg_path pkg_version p
     \<Longrightarrow> validated_in w s pkg_name sigs pkg_path pkg_version p"
  by (simp add: validated_in_def props_of_evolves)

lemma process_versions_written:
  assumes "process_versions w pkg_name sigs container vs acc s = (r, s')"
    and "files s (p @ ''.sha256'') = None" and "files s' (p @ ''.sha256'') \<noteq> None"
  shows "\<exists>v \<in> set vs. validated_in w s pkg_name sigs (os_path_join container v) v p"
  using assms
proof (induction vs arbitrary: acc s)
  case Nil
  then show ?case by (simp add: io_return_iff)
next
  case (Cons a vs)
  show ?case
  proof (cases "isdir w (os_path_join container a)")
    case False
    with Cons.prems(1) have
      "process_versions w pkg_name sigs container vs acc s = (r, s')"
      by (simp add: Let_def)
    from Cons.IH [OF this Cons.prems(2,3)] show ?thesis by auto
  next
    case True
    obtain r1 s1 where
      first: "process_version w pkg_name sigs (os_path_join container a) a s = (r1, s1)"
      by (cases "process_version w pkg_name sigs (os_path_join container a) a s")
    have e1: "evolves s s1"
      using frame_evolves [OF frame_process_version first] .
    show ?thesis
    proof (cases "files s1 (p @ ''.sha256'')")
      case (Some bs)
      with process_version_written [OF first Cons.prems(2)] show ?thesis by simp
    next
      case None
      show ?thesis
      proof (cases r1)
        case (Inl e)
        with first True Cons.prems(1) have "s' = s1" by (simp add: Let_def io_bind_def)
        with None Cons.prems(3) show ?thesis by simp
      next
        case (Inr pkg_props)
        with first True Cons.prems(1) consider
            (stop) "s' = s1"
          | (continue) acc1 where
              "process_versions w pkg_name sigs container vs acc1 s1 = (r, s')"
          by (auto simp: Let_def io_bind_def io_lift_def split: sum.splits)
        then show ?thesis
        proof cases
          case stop
          with None Cons.prems(3) show ?thesis by simp
        next
          case continue
          from Cons.IH [OF this None Cons.prems(3)] obtain v where
            v: "v \<in> set vs" and
            val: "validated_in w s1 pkg_name sigs (os_path_join container v) v p"
            by blast
          from validated_in_evolves [OF e1 val] v show ?thesis by auto
        qed
      qed
    qed
  qed
qed

lemma process_package_written:
  assumes "process_package w pkg_name s = (r, s')"
    and "files s (p @ ''.sha256'') = None" and "files s' (p @ ''.sha256'') \<noteq> None"
  shows "\<exists>vs v sigs. listdir w (os_path_join packages_dir pkg_name) = Some vs \<and> v \<in> set vs
           \<and> validated_in w s pkg_name sigs (version_path pkg_name v) v p"
proof -
  from assms consider
      (unchanged) "files s' = files s"
    | (versions) sigs vs acc s1 where
        "listdir w (os_path_join packages_dir pkg_name) = Some vs" "files s1 = files s"
        "process_versions w pkg_name sigs (os_path_join packages_dir pkg_name) (sort vs) [] s1
           = (acc, s')"
    unfolding process_package_def Let_def
    by (auto dest!: io_bind_cases
        simp: io_lift_iff io_return_iff isfile_iff load_props_eq os_listdir_def
        split: option.splits if_splits)
  then show ?thesis
  proof cases
    case unchanged
    with assms(2,3) show ?thesis by simp
  next
    case versions
    from process_versions_written [OF versions(3)] versions(2) assms(2,3) obtain v where
      "v \<in> set vs" and
      "validated_in w s1 pkg_name sigs (os_path_join (os_path_join packages_dir pkg_name) v) v p"
      by auto
    moreover have "evolves s s1" using versions(2) by (simp add: evolves_def)
    ultimately show ?thesis
      using versions(1) validated_in_evolves unfolding version_path_def by blast
  qed
qed

lemma process_packages_written:
  assumes "process_packages w names acc s = (r, s')"
    and "files s (p @ ''.sha256'') = None" and "files s' (p @ ''.sha256'') \<noteq> None"
  shows "\<exists>pkg_name \<in> set names. \<exists>vs v sigs.
           listdir w (os_path_join packages_dir pkg_name) = Some vs \<and> v \<in> set vs
           \<and> validated_in w s pkg_name sigs (version_path pkg_name v) v p"
  using assms
proof (induction names arbitrary: acc s)
  case Nil
  then show ?case by (simp add: io_return_iff)
next
  case (Cons a names)
  obtain r1 s1 where first: "process_package w a s = (r1, s1)"
    by (cases "process_package w a s")
  have e1: "evolves s s1"
    using frame_evolves [OF frame_process_package first] .
  show ?case
  proof (cases "files s1 (p @ ''.sha256'')")
    case (Some bs)
    with process_package_written [OF first Cons.prems(2)] show ?thesis by simp
  next
    case None
    show ?thesis
    proof (cases r1)
      case (Inl e)
      with first Cons.prems(1) have "s' = s1" by (simp add: io_bind_def)
      with None Cons.prems(3) show ?thesis by simp
    next
      case (Inr cp)
      with first Cons.prems(1) have
        "process_packages w names (dict_set acc a (PDict cp)) s1 = (r, s')"
        by (simp add: io_bind_def)
      from Cons.IH [OF this None Cons.prems(3)] obtain n vs v sigs where
        n: "n \<in> set names" "listdir w (os_path_join packages_dir n) = Some vs" "v \<in> set vs" and
        val: "validated_in w s1 n sigs (version_path n v) v p"
        by blast
      from validated_in_evolves [OF e1 val] n show ?thesis by auto
    qed
  qed
qed

lemma scan_written:
  assumes "scan w s = (r, s')"
    and "files s (p @ ''.sha256'') = None" and "files s' (p @ ''.sha256'') \<noteq> None"
  shows "\<exists>names pkg_name vs v sigs. listdir w packages_dir = Some names \<and> pkg_name \<in> set names
           \<and> listdir w (os_path_join packages_dir pkg_name) = Some vs \<and> v \<in> set vs
           \<and> validated_in w s pkg_name sigs (version_path pkg_name v) v p"
proof -
  let ?s0 = "s\<lparr>calls := calls s @ [[''./compress-apks'']]\<rparr>"
  from assms consider
      (unchanged) "files s' = files s"
    | (packages) names where "listdir w packages_dir = Some names"
        "process_packages w (sort names) [] ?s0 = (r, s')"
    unfolding scan_def
    by (auto dest!: io_bind_cases simp: io_lift_iff log_call_def os_listdir_def
        split: option.splits)
  then show ?thesis
  proof cases
    case unchanged
    with assms(2,3) show ?thesis by simp
  next
    case packages
    have "files ?s0 (p @ ''.sha256'') = None" using assms(2) by simp
    from process_packages_written [OF packages(2) this assms(3)] obtain n vs v sigs where
      n: "n \<in> set names" "listdir w (os_path_join packages_dir n) = Some vs" "v \<in> set vs" and
      val: "validated_in w ?s0 n sigs (version_path n v) v p"
      by auto
    have "evolves s ?s0" by (simp add: evolves_def)
    from validated_in_evolves [OF this val] n packages(1) show ?thesis by blast
  qed
qed

subsection \<open>Paths of distinct artifacts are distinct\<close>

lemma os_path_join_plain:
  assumes "plain_name n" and "x \<noteq> []" and "last x \<noteq> CHR ''/''"
  shows "os_path_join x n = x @ ''/'' @ n"
proof -
  from assms(1) have "\<not> startswith n ''/''"
    by (cases n) (auto simp: plain_name_def startswith_def)
  moreover from assms(2,3) have "\<not> endswith x ''/''"
    by (auto simp: endswith_def) (metis append_take_drop_id last_appendR last_snoc list.distinct(1))
  ultimately show ?thesis using assms(2) by (simp add: os_path_join_def)
qed

lemma plain_last: "plain_name n \<Longrightarrow> last n \<noteq> CHR ''/''"
  by (auto simp: plain_name_def) (metis last_in_set)

lemma artifact_path_plain:
  assumes "plain_name pkg_name" "plain_name v" "plain_name a"
  shows "os_path_join (version_path pkg_name v) a = ''apps/packages/'' @ pkg_name @ ''/'' @ v @ ''/'' @ a"
    and "version_path pkg_name v = ''apps/packages/'' @ pkg_name @ ''/'' @ v"
proof -
  have c: "os_path_join packages_dir pkg_name = ''apps/packages/'' @ pkg_name"
    using os_path_join_plain [OF assms(1), of packages_dir] by (simp add: packages_dir_def)
  have "last (''apps/packages/'' @ pkg_name) \<noteq> CHR ''/''"
    using plain_last [OF assms(1)] assms(1) by (simp add: plain_name_def)
  from os_path_join_plain [OF assms(2) _ this] c
  show v: "version_path pkg_name v = ''apps/packages/'' @ pkg_name @ ''/'' @ v"
    by (simp add: version_path_def)
  have "last (''apps/packages/'' @ pkg_name @ ''/'' @ v) \<noteq> CHR ''/''"
    using plain_last [OF assms(2)] assms(2) by (simp add: plain_name_def)
  from os_path_join_plain [OF assms(3) _ this] v
  show "os_path_join (version_path pkg_name v) a = ''apps/packages/'' @ pkg_name @ ''/'' @ v @ ''/'' @ a"
    by simp
qed

lemma split_unique:
  "xs @ c # ys = xs' @ c # ys' \<Longrightarrow> c \<notin> set xs \<Longrightarrow> c \<notin> set xs' \<Longrightarrow> xs = xs' \<and> ys = ys'"
proof (induction xs arbitrary: xs')
  case Nil
  then show ?case by (cases xs') auto
next
  case (Cons x xs)
  then show ?case by (cases xs') auto
qed

lemma artifact_path_inj:
  assumes "plain_name n" "plain_name v" "plain_name a"
    and "plain_name n'" "plain_name v'" "plain_name a'"
    and "os_path_join (version_path n v) a = os_path_join (version_path n' v') a'"
  shows "n = n' \<and> v = v' \<and> a = a'"
proof -
  from assms(7) artifact_path_plain(1) [OF assms(1-3)] artifact_path_plain(1) [OF assms(4-6)]
  have "n @ CHR ''/'' # (v @ CHR ''/'' # a) = n' @ CHR ''/'' # (v' @ CHR ''/'' # a')"
    by simp
  from split_unique [OF this] assms(1,4) have n: "n = n'" and
    rest: "v @ CHR ''/'' # a = v' @ CHR ''/'' # a'"
    by (auto simp: plain_name_def)
  from split_unique [OF rest] assms(2,5) n show ?thesis
    by (auto simp: plain_name_def)
qed

lemma apk_names_listed:
  "apk_names w pkg_path = Inr names \<Longrightarrow> a \<in> set names
     \<Longrightarrow> \<exists>ns. listdir w pkg_path = Some ns \<and> a \<in> set ns \<and> endswith a ''.apk''"
  by (auto simp: apk_names_def res_bind_Inr_iff os_listdir_def split: option.splits)

end
